theory Spec2Isabelle
  imports
    Complex_Main
    "HOL-Library.Char_ord"
    "HOL-Library.List_Lexorder"
begin

section \<open>Python strings\<close>

text \<open>
  The labels carry product descriptions, IMEI numbers and box identifiers. A Python
  \<open>str\<close> is modelled as a \<^typ>\<open>string\<close>, one \<^typ>\<open>char\<close> per code point, for text
  in the ASCII range. The methods of \<open>str\<close> that \<open>main.py\<close> calls are written out on
  that range: \<open>isspace\<close> holds of tab, line feed, vertical tab, form feed, carriage
  return, the four separators \<open>0x1C\<close> to \<open>0x1F\<close> and the space; \<open>isdigit\<close> of the ten
  digits; \<open>upper\<close> maps the 26 small letters to capitals and leaves the rest alone.
\<close>

definition str_isspace :: "char \<Rightarrow> bool" where
  "str_isspace c =
     (c \<in> set [CHR 0x09, CHR 0x0A, CHR 0x0B, CHR 0x0C, CHR 0x0D,
                CHR 0x1C, CHR 0x1D, CHR 0x1E, CHR 0x1F, CHR '' ''])"

definition str_isdigit :: "char \<Rightarrow> bool" where
  "str_isdigit c = (c \<in> set ''0123456789'')"

definition upper_char :: "char \<Rightarrow> char" where
  "upper_char c =
     (case map_of (zip ''abcdefghijklmnopqrstuvwxyz'' ''ABCDEFGHIJKLMNOPQRSTUVWXYZ'') c of
        Some u \<Rightarrow> u
      | None \<Rightarrow> c)"

definition str_upper :: "string \<Rightarrow> string" where
  "str_upper s = map upper_char s"

text \<open>\<open>s.strip()\<close>: whitespace removed at both ends.\<close>

definition str_strip :: "string \<Rightarrow> string" where
  "str_strip s = rev (dropWhile str_isspace (rev (dropWhile str_isspace s)))"

text \<open>
  \<open>s.split()\<close> with no separator: the maximal runs of characters that are not
  whitespace, in order. \<open>split_from cur rest\<close> scans \<open>rest\<close> with the token being read
  in \<open>cur\<close>.
\<close>

fun split_from :: "string \<Rightarrow> string \<Rightarrow> string list" where
  "split_from cur [] = (if cur = [] then [] else [cur])"
| "split_from cur (c # cs) =
     (if str_isspace c then (if cur = [] then split_from [] cs else cur # split_from [] cs)
      else split_from (cur @ [c]) cs)"

definition str_split :: "string \<Rightarrow> string list" where
  "str_split s = split_from [] s"

text \<open>\<open>sep.join(parts)\<close>.\<close>

fun str_join :: "string \<Rightarrow> string list \<Rightarrow> string" where
  "str_join sep [] = []"
| "str_join sep [x] = x"
| "str_join sep (x # y # ys) = x @ sep @ str_join sep (y # ys)"

text \<open>\<open>str(n)\<close> of a natural number: its decimal digits.\<close>

definition digit_char :: "nat \<Rightarrow> char" where
  "digit_char d = ''0123456789'' ! d"

fun str_of_nat :: "nat \<Rightarrow> string" where
  "str_of_nat n =
     (if n < 10 then [digit_char n] else str_of_nat (n div 10) @ [digit_char (n mod 10)])"

declare str_of_nat.simps [simp del]


section \<open>The attribute extractor\<close>

text \<open>
  \<open>BarcodeGenerator.extract_color_from_product\<close> (\<open>main.py\<close>, lines 25 to 58). The
  \<open>for\<close> loop over \<open>enumerate(parts)\<close> is \<open>find_storage_spec\<close>: it is entered with the
  index \<open>i\<close> of the first part of its argument and returns the value the loop leaves in
  \<open>color_start_index\<close>, which is \<open>0\<close> when no part holds both a \<open>+\<close> and a digit and
  \<open>i + 1\<close> at the first part that does (the \<open>break\<close>).
\<close>

fun find_storage_spec :: "string list \<Rightarrow> nat \<Rightarrow> nat" where
  "find_storage_spec [] i = 0"
| "find_storage_spec (part # rest) i =
     (if CHR ''+'' \<in> set part \<and> list_ex str_isdigit part then i + 1
      else find_storage_spec rest (i + 1))"

definition extract_color_from_product :: "string \<Rightarrow> string" where
  "extract_color_from_product product_string =
     (if product_string = [] \<or> product_string = ''nan'' then ''Unknown Color''
      else
        let parts = str_split (str_strip product_string) in
        if length parts < 2 then ''Unknown Color''
        else
          let color_start_index = find_storage_spec parts 0 in
          if color_start_index > 0 \<and> color_start_index < length parts then
            (let color_parts = drop color_start_index parts;
                 color = str_join '' '' color_parts
             in if color \<noteq> [] then str_upper color else ''Unknown Color'')
          else if length parts \<ge> 2 then
            str_upper (str_join '' '' (drop (length parts - 2) parts))
          else ''Unknown Color'')"

subsection \<open>The rule as the specification words it\<close>

text \<open>
  The specification's \<open>extractColor\<close>, written from its sentences and not from the
  code: a specifier is a token with a \<open>+\<close> and at least one digit; the input is split
  on whitespace; an empty input, the placeholder \<open>nan\<close> or fewer than two tokens give
  the sentinel; otherwise the tokens strictly after the first specifier are joined with
  single spaces and upper-cased, and with no specifier the last two tokens are.
\<close>

definition is_specifier :: "string \<Rightarrow> bool" where
  "is_specifier t = (CHR ''+'' \<in> set t \<and> (\<exists>c \<in> set t. str_isdigit c))"

definition extractColor_spec :: "string \<Rightarrow> string" where
  "extractColor_spec product =
     (let tokens = str_split product in
      if product = [] \<or> product = ''nan'' \<or> length tokens < 2 then ''Unknown Color''
      else
        (case dropWhile (\<lambda>t. \<not> is_specifier t) tokens of
           [] \<Rightarrow> str_upper (str_join '' '' [last (butlast tokens), last tokens])
         | specifier # after \<Rightarrow> str_upper (str_join '' '' after)))"

text \<open>The inputs of at least two tokens whose first specifier is their final token.\<close>

definition specifier_is_final :: "string \<Rightarrow> bool" where
  "specifier_is_final product =
     (let tokens = str_split product in
      2 \<le> length tokens \<and> dropWhile (\<lambda>t. \<not> is_specifier t) tokens = [last tokens])"


section \<open>The label composer\<close>

subsection \<open>What the libraries provide\<close>

text \<open>
  The composer draws with Pillow and encodes with \<open>python-barcode\<close> and \<open>qrcode\<close>.
  Their code is not part of the repository; what the composer observes of them is
  collected in an environment:
  \<^item> \<open>truetype path size\<close> is \<open>ImageFont.truetype(path, size)\<close>: the face, or \<open>None\<close>
    where the call raises (the file is not installed);
  \<^item> \<open>textbbox text font\<close> is \<open>draw.textbbox((0, 0), text, font=font)\<close>, the box
    \<open>(left, top, right, bottom)\<close> of the text;
  \<^item> \<open>code128_accepts\<close> and \<open>qr_accepts\<close> tell whether the encoder takes the data or
    raises;
  \<^item> \<open>can_save path\<close> tells whether \<open>label.save(path, ...)\<close> returns or raises;
  \<^item> \<open>readable path\<close> tells whether \<open>ImageReader(path)\<close> and \<open>drawImage\<close> return or
    raise.

  Drawing text, pasting and \<open>ImageFont.load_default()\<close> are taken not to raise.
\<close>

datatype font = TrueType string int | DefaultFont

record environment =
  truetype :: "string \<Rightarrow> int \<Rightarrow> font option"
  textbbox :: "string \<Rightarrow> font \<Rightarrow> int \<times> int \<times> int \<times> int"
  code128_accepts :: "string \<Rightarrow> bool"
  qr_accepts :: "string \<Rightarrow> bool"
  can_save :: "string \<Rightarrow> bool"
  readable :: "string \<Rightarrow> bool"

text \<open>The exceptions that can leave the composer, the batch driver and the paginator.\<close>

datatype error = EncodingError | ZeroDivisionError | SaveError

text \<open>\<open>bbox[2] - bbox[0]\<close> and \<open>bbox[3] - bbox[1]\<close>.\<close>

definition bbox_width :: "int \<times> int \<times> int \<times> int \<Rightarrow> int" where
  "bbox_width bbox = (case bbox of (x0, y0, x1, y1) \<Rightarrow> x1 - x0)"

definition bbox_height :: "int \<times> int \<times> int \<times> int \<Rightarrow> int" where
  "bbox_height bbox = (case bbox of (x0, y0, x1, y1) \<Rightarrow> y1 - y0)"

text \<open>
  \<open>int(x)\<close> of a float truncates towards zero. Python computes the quotients and
  products it is applied to in binary floating point; here they are exact rationals.
  For the first stage the two agree: for every width \<open>w\<close> from 1 to 459 the float
  \<open>16 * (460 / w)\<close> has the integer part of the exact product (multiplying by 16 is
  exact, and a quotient that is not a multiple of \<open>1/16\<close> is too far from one to be
  rounded onto it). For the second stage they agree whenever the exact
  \<open>25 * available_width / number_width\<close> is not a whole number; when it is one, the
  float product can fall just below it (\<open>25 * (29 / 25)\<close> is \<open>28.999999999999996\<close>)
  and \<open>int\<close> then gives one less than the exact value modelled here.
\<close>

definition py_int :: "rat \<Rightarrow> int" where
  "py_int x = (if 0 \<le> x then \<lfloor>x\<rfloor> else \<lceil>x\<rceil>)"

subsection \<open>Encoders\<close>

text \<open>
  An encoded picture is known by the data it encodes and the size it was resampled to
  (\<open>resize((width, height))\<close> ends both \<open>generate_code128_barcode\<close> and
  \<open>generate_qr_code\<close>).
\<close>

datatype picture = Code128Image string int int | QRImage string int int

definition generate_code128_barcode :: "environment \<Rightarrow> string \<Rightarrow> int \<Rightarrow> int \<Rightarrow> error + picture" where
  "generate_code128_barcode env data width height =
     (if code128_accepts env data then Inr (Code128Image data width height)
      else Inl EncodingError)"

definition generate_qr_code :: "environment \<Rightarrow> string \<Rightarrow> int \<times> int \<Rightarrow> error + picture" where
  "generate_qr_code env data size2 =
     (if qr_accepts env data then Inr (QRImage data (fst size2) (snd size2))
      else Inl EncodingError)"

subsection \<open>The canvas\<close>

text \<open>
  A label is the canvas \<open>Image.new('RGB', (650, 300), 'white')\<close> and what was drawn on
  it, in order: \<open>draw.text((x, y), text, fill='black', font=font)\<close>,
  \<open>label.paste(img, (x, y))\<close> and \<open>draw.ellipse([left, top, right, bottom],
  outline='black', width=w)\<close>. Coordinates are rationals, since the circle's are
  computed with \<open>/\<close>.
\<close>

datatype draw_op =
    DrawText rat rat string font
  | Paste picture int int
  | Ellipse rat rat rat rat int

record label =
  canvas_size :: "int \<times> int"
  canvas_color :: string
  ops :: "draw_op list"

abbreviation (input) label_width :: int where "label_width \<equiv> 650"
abbreviation (input) label_height :: int where "label_height \<equiv> 300"
abbreviation (input) x_start :: int where "x_start \<equiv> 30"
abbreviation (input) barcode_width :: int where "barcode_width \<equiv> 460"
abbreviation (input) barcode_height :: int where "barcode_height \<equiv> 60"
abbreviation (input) qr_size :: int where "qr_size \<equiv> 150"

subsection \<open>Font loading\<close>

text \<open>
  Lines 113 to 137. A \<open>try\<close> block that loads several faces is left at the first call
  that raises, and its handler then assigns every one of them again, so the block
  yields the first group that loads as a whole.
\<close>

definition load_bold_fonts :: "environment \<Rightarrow> font \<times> font \<times> font" where
  "load_bold_fonts env =
     (case (truetype env ''ARIALBD.TTF'' 35, truetype env ''ARIALBD.TTF'' 20,
            truetype env ''ARIALBD.TTF'' 28) of
        (Some font_large, Some font_medium, Some font_circle) \<Rightarrow>
          (font_large, font_medium, font_circle)
      | _ \<Rightarrow>
        (case (truetype env ''/System/Library/Fonts/Arial Bold.ttf'' 40,
               truetype env ''/System/Library/Fonts/Arial Bold.ttf'' 20,
               truetype env ''/System/Library/Fonts/Arial Bold.ttf'' 28) of
           (Some font_large, Some font_medium, Some font_circle) \<Rightarrow>
             (font_large, font_medium, font_circle)
         | _ \<Rightarrow> (DefaultFont, DefaultFont, DefaultFont)))"

definition load_regular_font :: "environment \<Rightarrow> font" where
  "load_regular_font env =
     (case truetype env ''/System/Library/Fonts/Arial.ttf'' 18 of
        Some f \<Rightarrow> f
      | None \<Rightarrow> (case truetype env ''arial.ttf'' 18 of Some f \<Rightarrow> f | None \<Rightarrow> DefaultFont))"

subsection \<open>Fitting a caption to the barcode's width\<close>

text \<open>
  The block of lines 169 to 193 (IMEI caption) and again 239 to 263 (Box ID caption):
  the label and the value are measured together in \<open>font_medium\<close>; when that is
  narrower than the barcode, both faces are asked for at \<open>int(16 * scale_factor)\<close>.
  The two copies differ in one place: with no scaling the IMEI block keeps
  \<open>font_regular\<close> for the value and the Box ID block \<open>font_medium\<close>; that face is the
  parameter \<open>unscaled_number_font\<close>. Dividing by a measured width of \<open>0\<close> raises.
\<close>

definition scale_caption_fonts ::
  "environment \<Rightarrow> font \<Rightarrow> font \<Rightarrow> font \<Rightarrow> string \<Rightarrow> error + (font \<times> font)" where
  "scale_caption_fonts env font_medium font_regular unscaled_number_font full_text =
     (let text_width = bbox_width (textbbox env full_text font_medium) in
      if text_width < barcode_width then
        (if text_width = 0 then Inl ZeroDivisionError
         else
           let scale_factor = of_int barcode_width / of_int text_width;
               new_font_size = py_int (16 * scale_factor)
           in Inr
             (case (truetype env ''ARIALBD.TTF'' new_font_size,
                    truetype env ''arial.ttf'' new_font_size) of
                (Some bold_font, Some regular_font) \<Rightarrow> (bold_font, regular_font)
              | _ \<Rightarrow>
                (case (truetype env ''/System/Library/Fonts/Arial Bold.ttf'' new_font_size,
                       truetype env ''/System/Library/Fonts/Arial.ttf'' new_font_size) of
                   (Some bold_font, Some regular_font) \<Rightarrow> (bold_font, regular_font)
                 | _ \<Rightarrow> (font_medium, font_regular))))
      else Inr (font_medium, unscaled_number_font))"

text \<open>
  Lines 206 to 221 and 276 to 291: the value alone is measured in the face the first
  stage chose for it; when that is narrower than the room left, a face is asked for at
  \<open>int(25 * number_scale_factor)\<close>.
\<close>

definition stretch_number_font ::
  "environment \<Rightarrow> font \<Rightarrow> int \<Rightarrow> string \<Rightarrow> error + font" where
  "stretch_number_font env number_font available_width number_text =
     (let number_width = bbox_width (textbbox env number_text number_font) in
      if number_width < available_width then
        (if number_width = 0 then Inl ZeroDivisionError
         else
           let number_scale_factor = of_int available_width / of_int number_width;
               number_font_size = py_int (25 * number_scale_factor)
           in Inr
             (case truetype env ''arial.ttf'' number_font_size of
                Some f \<Rightarrow> f
              | None \<Rightarrow>
                (case truetype env ''/System/Library/Fonts/Arial.ttf'' number_font_size of
                   Some f \<Rightarrow> f
                 | None \<Rightarrow> number_font)))
      else Inr number_font)"

text \<open>
  A whole caption at height \<open>y_pos\<close> (lines 165 to 224 and 235 to 294): the two
  stages and the two \<open>draw.text\<close> calls between and after them.
\<close>

definition draw_caption ::
  "environment \<Rightarrow> font \<Rightarrow> font \<Rightarrow> font \<Rightarrow> string \<Rightarrow> string \<Rightarrow> int \<Rightarrow> error + draw_op list" where
  "draw_caption env font_medium font_regular unscaled_number_font caption number y_pos =
     (case scale_caption_fonts env font_medium font_regular unscaled_number_font
             (caption @ '' '' @ number) of
        Inl e \<Rightarrow> Inl e
      | Inr (bold_font, number_font) \<Rightarrow>
          let caption_width = bbox_width (textbbox env caption bold_font);
              number_x = x_start + caption_width + 5;
              available_width = barcode_width - (number_x - x_start)
          in
            (case stretch_number_font env number_font available_width number of
               Inl e \<Rightarrow> Inl e
             | Inr stretched_number_font \<Rightarrow>
                 Inr [DrawText (of_int x_start) (of_int y_pos) caption bold_font,
                      DrawText (of_int number_x) (of_int y_pos) number
                        stretched_number_font]))"

subsection \<open>The second barcode\<close>

text \<open>
  Lines 226 to 309, entered with \<open>y_pos\<close> at the IMEI caption. \<open>if box_id:\<close> is
  Python's truth test: \<open>None\<close> and the empty string skip the block, every other
  string enters it.
\<close>

definition draw_box_section ::
  "environment \<Rightarrow> font \<Rightarrow> font \<Rightarrow> font \<Rightarrow> string \<Rightarrow> string option \<Rightarrow> int \<Rightarrow>
     error + draw_op list" where
  "draw_box_section env font_large font_medium font_regular dn box_id y_pos =
     (case box_id of
        None \<Rightarrow> Inr []
      | Some box_number \<Rightarrow>
          if box_number = [] then Inr []
          else
            let y_barcode = y_pos + 35 in
            (case generate_code128_barcode env box_number barcode_width barcode_height of
               Inl e \<Rightarrow> Inl e
             | Inr box_barcode_img \<Rightarrow>
                 let y_caption = y_barcode + barcode_height + 0 in
                 (case draw_caption env font_medium font_regular font_medium
                         ''Box ID'' box_number y_caption of
                    Inl e \<Rightarrow> Inl e
                  | Inr caption_ops \<Rightarrow>
                      let y_dn = y_caption + 35;
                          dn_font =
                            (case truetype env ''arial.ttf'' 30 of
                               Some f \<Rightarrow> f
                             | None \<Rightarrow>
                               (case truetype env ''/System/Library/Fonts/Arial.ttf'' 30 of
                                  Some f \<Rightarrow> f
                                | None \<Rightarrow> font_large))
                      in Inr ([Paste box_barcode_img x_start y_barcode] @ caption_ops @
                              [DrawText (of_int x_start) (of_int y_dn) (''D/N: '' @ dn)
                                 dn_font]))))"

subsection \<open>The circled letter\<close>

text \<open>Lines 321 to 346.\<close>

definition draw_circled_a :: "environment \<Rightarrow> font \<Rightarrow> int \<Rightarrow> draw_op list" where
  "draw_circled_a env font_circle qr_x_pos =
     (let circle_diameter = 40;
          circle_x_center = of_int qr_x_pos + (of_int qr_size / 2) + 15;
          circle_y_center = 270;
          circle_left = circle_x_center - circle_diameter / 2;
          circle_top = circle_y_center - circle_diameter / 2;
          circle_right = circle_x_center + circle_diameter / 2;
          circle_bottom = circle_y_center + circle_diameter / 2;
          a_bbox = textbbox env ''A'' font_circle;
          a_width = bbox_width a_bbox;
          a_height = bbox_height a_bbox;
          a_x = circle_x_center - of_int a_width / 2;
          a_y = circle_y_center - of_int a_height / 2 - 3
      in [Ellipse circle_left circle_top circle_right circle_bottom 2,
          DrawText a_x a_y ''A'' font_circle])"

subsection \<open>The composer\<close>

text \<open>
  \<open>BarcodeGenerator.create_barcode_label\<close> (lines 102 to 348). The parameter \<open>brand\<close>
  is never read. An exception of an encoder or of a division leaves the function, so
  the result is the label or the error.
\<close>

definition create_barcode_label ::
  "environment \<Rightarrow> string \<Rightarrow> string \<Rightarrow> string \<Rightarrow> string \<Rightarrow> string option \<Rightarrow> error + label" where
  "create_barcode_label env imei model color dn box_id =
     (case load_bold_fonts env of
        (font_large, font_medium, font_circle) \<Rightarrow>
          let font_regular = load_regular_font env;
              y_top = 20;
              color_text = str_upper color;
              color_width = bbox_width (textbbox env color_text font_large);
              x_pos_color = label_width - color_width - 60;
              top_ops = [DrawText (of_int x_start) (of_int y_top) model font_large,
                         DrawText (of_int x_pos_color) (of_int y_top) color_text font_large];
              y_pos = 70
          in
            (case generate_code128_barcode env imei barcode_width barcode_height of
               Inl e \<Rightarrow> Inl e
             | Inr imei_barcode_img \<Rightarrow>
                 let y_imei = y_pos + barcode_height + 8 in
                 (case draw_caption env font_medium font_regular font_regular
                         ''IMEI'' imei y_imei of
                    Inl e \<Rightarrow> Inl e
                  | Inr imei_ops \<Rightarrow>
                      (case draw_box_section env font_large font_medium font_regular
                              dn box_id y_imei of
                         Inl e \<Rightarrow> Inl e
                       | Inr box_ops \<Rightarrow>
                           (case generate_qr_code env imei (qr_size, qr_size) of
                              Inl e \<Rightarrow> Inl e
                            | Inr qr_code_img \<Rightarrow>
                                let qr_x_pos = label_width - qr_size - 0;
                                    qr_y_pos = 65
                                in Inr
                                  \<lparr>canvas_size = (label_width, label_height),
                                   canvas_color = ''white'',
                                   ops = top_ops @ [Paste imei_barcode_img x_start y_pos] @
                                         imei_ops @ box_ops @
                                         [Paste qr_code_img qr_x_pos qr_y_pos] @
                                         draw_circled_a env font_circle qr_x_pos\<rparr>)))))"


section \<open>The batch driver\<close>

text \<open>
  \<open>BarcodeGenerator.generate_from_data\<close> (lines 437 to 522) turns its argument into
  a pandas \<open>DataFrame\<close> and loops over its rows. The loop is modelled from the
  \<open>DataFrame\<close> on: a row maps column names to cells, and a cell is known by what
  \<open>str\<close> makes of it, which is the text \<open>nan\<close> for the missing value \<open>NaN\<close> that
  pandas puts in an empty cell. \<open>row.get(key, default)\<close> is \<open>row_get\<close>.
\<close>

datatype cell = Str string | NaN

type_synonym row = "string \<Rightarrow> cell option"

fun py_str :: "cell \<Rightarrow> string" where
  "py_str (Str s) = s"
| "py_str NaN = ''nan''"

definition row_get :: "row \<Rightarrow> string \<Rightarrow> cell \<Rightarrow> cell" where
  "row_get r key dflt = (case r key of Some v \<Rightarrow> v | None \<Rightarrow> dflt)"

text \<open>\<open>os.path.join(a, b)\<close> on POSIX paths.\<close>

definition path_join :: "string \<Rightarrow> string \<Rightarrow> string" where
  "path_join a b =
     (if b \<noteq> [] \<and> hd b = CHR ''/'' then b
      else if a = [] \<or> last a = CHR ''/'' then a @ b
      else a @ ''/'' @ b)"

text \<open>
  What a run leaves behind: the list it returns, the files it wrote, and the lines it
  printed about rows.
\<close>

datatype message =
    Skipping nat
  | Generated string
  | ErrorGenerating nat error

record batch =
  generated_files :: "string list"
  written :: "(string \<times> label) list"
  printed :: "message list"

text \<open>
  The fields of a row (lines 484 to 495). In the source as stored, line 493 stands four
  columns to the left of the \<open>else:\<close> it follows; it is read as the body of that
  \<open>else\<close>.
\<close>

definition row_imei :: "row \<Rightarrow> string" where
  "row_imei r = py_str (row_get r ''imei'' (row_get r ''IMEI/SN'' (row_get r ''IMEI'' (Str []))))"

definition row_box_id :: "row \<Rightarrow> string" where
  "row_box_id r = py_str (row_get r ''box_id'' (row_get r ''Box ID'' (row_get r ''Boxid'' (Str []))))"

definition row_model :: "row \<Rightarrow> string" where
  "row_model r = py_str (row_get r ''model'' (row_get r ''Model'' (Str ''Unknown'')))"

definition row_color :: "row \<Rightarrow> string" where
  "row_color r =
     (let product_string = py_str (row_get r ''product'' (row_get r ''Product'' (Str [])))
      in if product_string \<noteq> [] \<and> product_string \<noteq> ''nan''
         then extract_color_from_product product_string
         else py_str (row_get r ''color'' (row_get r ''Color'' (Str ''Unknown Color''))))"

definition row_dn :: "row \<Rightarrow> string" where
  "row_dn r = py_str (row_get r ''dn'' (row_get r ''DN'' (Str ''M8N7'')))"

text \<open>Lines 511 and 512: the name and the path of the file of a label.\<close>

definition label_filename :: "string \<Rightarrow> nat \<Rightarrow> string" where
  "label_filename imei index = ''barcode_label_'' @ imei @ ''_'' @ str_of_nat (index + 1) @ ''.png''"

text \<open>
  The body of the loop (lines 482 to 519) for the row at \<open>index\<close>. Every exception
  raised in it is caught by its \<open>except Exception\<close>, which prints and goes on to
  the next row.
\<close>

definition process_row :: "environment \<Rightarrow> string \<Rightarrow> nat \<Rightarrow> row \<Rightarrow> batch \<Rightarrow> batch" where
  "process_row env output_dir index r st =
     (let imei = row_imei r;
          box_id = row_box_id r;
          model = row_model r;
          color = row_color r;
          dn = row_dn r
      in
        if imei = [] \<or> imei = ''nan'' then st\<lparr>printed := printed st @ [Skipping index]\<rparr>
        else
          (case create_barcode_label env imei model color dn (Some box_id) of
             Inl e \<Rightarrow> st\<lparr>printed := printed st @ [ErrorGenerating index e]\<rparr>
           | Inr lbl \<Rightarrow>
               let filename = label_filename imei index;
                   filepath = path_join output_dir filename
               in
                 if can_save env filepath then
                   st\<lparr>generated_files := generated_files st @ [filepath],
                      written := written st @ [(filepath, lbl)],
                      printed := printed st @ [Generated filename]\<rparr>
                 else st\<lparr>printed := printed st @ [ErrorGenerating index SaveError]\<rparr>))"

text \<open>\<open>for index, row in df.iterrows()\<close>, entered at \<open>index\<close>.\<close>

fun generate_rows :: "environment \<Rightarrow> string \<Rightarrow> nat \<Rightarrow> row list \<Rightarrow> batch \<Rightarrow> batch" where
  "generate_rows env output_dir index [] st = st"
| "generate_rows env output_dir index (r # rest) st =
     generate_rows env output_dir (index + 1) rest (process_row env output_dir index r st)"

definition generate_from_data :: "environment \<Rightarrow> string \<Rightarrow> row list \<Rightarrow> batch" where
  "generate_from_data env output_dir df =
     generate_rows env output_dir 0 df
       \<lparr>generated_files = [], written = [], printed = []\<rparr>"


section \<open>The grid paginator\<close>

text \<open>
  \<open>BarcodeGenerator.create_pdf_from_barcodes\<close> (lines 350 to 435) draws on a
  reportlab canvas. The canvas is modelled by the pages it has been told to lay out:
  \<open>showPage\<close> closes the page being drawn, whatever is on it, and opens an empty one;
  \<open>drawImage\<close> adds to the page being drawn; \<open>save\<close> writes the document, and
  closes the page being drawn only if something was drawn on it (reportlab:
  "If there is current data a ShowPage is executed automatically"), so a last page left
  empty is not part of the document. The warnings printed for images that could not be
  added are kept with the canvas.
\<close>

record drawn_image =
  img_path :: string
  img_x :: rat
  img_y :: rat
  img_width :: rat
  img_height :: rat

record pdf_canvas =
  finished_pages :: "drawn_image list list"
  current_page :: "drawn_image list"
  warnings :: "string list"

definition showPage :: "pdf_canvas \<Rightarrow> pdf_canvas" where
  "showPage c = c\<lparr>finished_pages := finished_pages c @ [current_page c], current_page := []\<rparr>"

definition drawImage :: "drawn_image \<Rightarrow> pdf_canvas \<Rightarrow> pdf_canvas" where
  "drawImage d c = c\<lparr>current_page := current_page c @ [d]\<rparr>"

definition save :: "pdf_canvas \<Rightarrow> drawn_image list list" where
  "save c =
     (if current_page c = [] then finished_pages c
      else finished_pages c @ [current_page c])"

text \<open>The quantities computed once per document (lines 378 to 392).\<close>

record layout =
  grid_cols :: int
  page_height :: rat
  cell_width :: rat
  cell_height :: rat
  image_width :: rat
  image_height :: rat

abbreviation (input) margin :: rat where "margin \<equiv> 20"
abbreviation (input) image_padding :: rat where "image_padding \<equiv> 5"

definition grid_layout :: "rat \<times> rat \<Rightarrow> int \<Rightarrow> int \<Rightarrow> layout" where
  "grid_layout A4 cols rows =
     (let page_width = fst A4;
          pg_height = snd A4;
          available_width = page_width - (2 * margin);
          available_height = pg_height - (2 * margin);
          c_width = available_width / of_int cols;
          c_height = available_height / of_int rows
      in \<lparr>grid_cols = cols, page_height = pg_height,
          cell_width = c_width, cell_height = c_height,
          image_width = c_width - (2 * image_padding),
          image_height = c_height - (2 * image_padding)\<rparr>)"

text \<open>Lines 411 to 423: where the image with index \<open>i\<close> on its page is drawn.\<close>

definition cell_image :: "layout \<Rightarrow> nat \<Rightarrow> string \<Rightarrow> drawn_image" where
  "cell_image g i image_path =
     (let row = int i div grid_cols g;
          col = int i mod grid_cols g;
          x = margin + (of_int col * cell_width g) + image_padding;
          y = page_height g - margin - (of_int (row + 1) * cell_height g) + image_padding
      in \<lparr>img_path = image_path, img_x = x, img_y = y,
          img_width = image_width g, img_height = image_height g\<rparr>)"

text \<open>
  \<open>for i, image_path in enumerate(page_images)\<close>, entered at \<open>i\<close>: an image that
  cannot be read raises inside the \<open>try\<close>, and the handler prints a warning.
\<close>

fun place_images :: "environment \<Rightarrow> layout \<Rightarrow> nat \<Rightarrow> string list \<Rightarrow> pdf_canvas \<Rightarrow> pdf_canvas" where
  "place_images env g i [] c = c"
| "place_images env g i (image_path # rest) c =
     place_images env g (i + 1) rest
       (if readable env image_path then drawImage (cell_image g i image_path) c
        else c\<lparr>warnings := warnings c @ [image_path]\<rparr>)"

text \<open>\<open>xs[a:b]\<close>, with Python's reading of negative and oversized bounds.\<close>

definition py_slice :: "'a list \<Rightarrow> int \<Rightarrow> int \<Rightarrow> 'a list" where
  "py_slice xs a b =
     (let n = int (length xs);
          lo = (if a < 0 then max (a + n) 0 else min a n);
          hi = (if b < 0 then max (b + n) 0 else min b n)
      in take (nat (hi - lo)) (drop (nat lo) xs))"

text \<open>\<open>for page_num in range(total_pages)\<close>, over the page numbers still to come.\<close>

fun page_loop ::
  "environment \<Rightarrow> layout \<Rightarrow> int \<Rightarrow> string list \<Rightarrow> nat list \<Rightarrow> pdf_canvas \<Rightarrow> pdf_canvas" where
  "page_loop env g images_per_page barcode_files [] c = c"
| "page_loop env g images_per_page barcode_files (page_num # rest) c =
     (let c1 = (if page_num > 0 then showPage c else c);
          start_idx = int page_num * images_per_page;
          end_idx = min (start_idx + images_per_page) (int (length barcode_files));
          page_images = py_slice barcode_files start_idx end_idx
      in page_loop env g images_per_page barcode_files rest
           (place_images env g 0 page_images c1))"

text \<open>
  The document: its pages, the warnings, and the number the run reports as
  \<open>Total pages\<close>.
\<close>

record document =
  doc_pages :: "drawn_image list list"
  doc_warnings :: "string list"
  total_pages :: int

text \<open>
  The function, from the list that \<open>glob\<close> returns. The directory and the name of
  the PDF file do not enter what is drawn and are left out. \<open>A4\<close> is reportlab's page size
  \<open>(width, height)\<close>. With no image the function returns \<open>None\<close> before a canvas
  exists. A grid with no column or no row raises at the division that computes the
  cell (\<open>grid_layout\<close> is entered with both different from \<open>0\<close>).
\<close>

definition create_pdf_from_barcodes ::
  "environment \<Rightarrow> rat \<times> rat \<Rightarrow> string list \<Rightarrow> int \<Rightarrow> int \<Rightarrow> error + document option" where
  "create_pdf_from_barcodes env A4 glob_result cols rows =
     (let barcode_files = sort glob_result in
      if barcode_files = [] then Inr None
      else if cols = 0 then Inl ZeroDivisionError
      else if rows = 0 then Inl ZeroDivisionError
      else
        let g = grid_layout A4 cols rows;
            images_per_page = cols * rows;
            n_pages = (int (length barcode_files) + images_per_page - 1) div images_per_page;
            c = page_loop env g images_per_page barcode_files [0..<nat n_pages]
                  \<lparr>finished_pages = [], current_page = [], warnings = []\<rparr>
        in Inr (Some \<lparr>doc_pages = save c, doc_warnings = warnings c,
                       total_pages = n_pages\<rparr>))"


section \<open>A sample machine\<close>

text \<open>
  One environment on which the definitions can be run: the two Arial files of a
  Windows installation load at every positive size, a text is half its font size wide
  per character (and never narrower than one pixel) and as high as the font size, the
  linear encoder refuses only the empty
  string, every label can be saved, and one file of the image directory is damaged.
\<close>

fun font_size :: "font \<Rightarrow> int" where
  "font_size (TrueType path sz) = sz"
| "font_size DefaultFont = 10"

definition sample_env :: environment where
  "sample_env =
     \<lparr>truetype = (\<lambda>path sz.
         if (path = ''ARIALBD.TTF'' \<or> path = ''arial.ttf'') \<and> 0 < sz
         then Some (TrueType path sz) else None),
      textbbox = (\<lambda>text f.
         (0, 0, (if text = [] then 0 else max 1 (font_size f * int (length text) div 2)),
          font_size f)),
      code128_accepts = (\<lambda>data. data \<noteq> []),
      qr_accepts = (\<lambda>data. True),
      can_save = (\<lambda>path. True),
      readable = (\<lambda>path. path \<noteq> ''generated_barcodes/damaged.png'')\<rparr>"


section \<open>Notions used in the statements\<close>

text \<open>Every text that is not empty has a positive width, in every face.\<close>

definition text_has_width :: "environment \<Rightarrow> bool" where
  "text_has_width env = (\<forall>text f. text \<noteq> [] \<longrightarrow> 0 < bbox_width (textbbox env text f))"

text \<open>The kinds of drawing operation.\<close>

fun is_text :: "draw_op \<Rightarrow> bool" where
  "is_text (DrawText x y t f) = True"
| "is_text _ = False"

fun is_qr_paste :: "draw_op \<Rightarrow> bool" where
  "is_qr_paste (Paste (QRImage d w h) x y) = True"
| "is_qr_paste _ = False"

fun is_barcode_paste :: "draw_op \<Rightarrow> bool" where
  "is_barcode_paste (Paste (Code128Image d w h) x y) = True"
| "is_barcode_paste _ = False"

fun is_ellipse :: "draw_op \<Rightarrow> bool" where
  "is_ellipse (Ellipse l t r b w) = True"
| "is_ellipse _ = False"

text \<open>
  The pages a canvas has been told to lay out, the one being drawn included, and a list
  of pages without its last page when that one is empty.
\<close>

definition laid_out :: "pdf_canvas \<Rightarrow> drawn_image list list" where
  "laid_out c = finished_pages c @ [current_page c]"

definition without_empty_last :: "'a list list \<Rightarrow> 'a list list" where
  "without_empty_last ps = (if ps \<noteq> [] \<and> last ps = [] then butlast ps else ps)"

text \<open>
  What one page holds of the images handed to it: those that can be read, each in the
  cell of its index.
\<close>

definition page_content :: "environment \<Rightarrow> layout \<Rightarrow> string list \<Rightarrow> drawn_image list" where
  "page_content env g page_images =
     map (\<lambda>(i, p). cell_image g i p)
       (filter (\<lambda>(i, p). readable env p) (List.enumerate 0 page_images))"

text \<open>What one row leaves behind when it is processed on its own.\<close>

definition row_result :: "environment \<Rightarrow> string \<Rightarrow> nat \<Rightarrow> row \<Rightarrow> batch" where
  "row_result env output_dir index r =
     process_row env output_dir index r \<lparr>generated_files = [], written = [], printed = []\<rparr>"

text \<open>Sixty-one image files, all of them intact on the sample machine.\<close>

definition sixty_one_files :: "string list" where
  "sixty_one_files = map (\<lambda>i. ''label_'' @ str_of_nat i @ ''.png'') [0..<61]"


section \<open>Properties of the attribute extractor\<close>

lemma split_from_spaces: "list_all str_isspace ws \<Longrightarrow> split_from [] ws = []"
  by (induction ws) auto

lemma split_from_append_spaces:
  "list_all str_isspace ws \<Longrightarrow> split_from cur (xs @ ws) = split_from cur xs"
proof (induction xs arbitrary: cur)
  case Nil
  then show ?case by (cases ws) (auto simp: split_from_spaces)
next
  case (Cons x xs)
  then show ?case by simp
qed

lemma str_split_dropWhile: "str_split (dropWhile str_isspace s) = str_split s"
  by (induction s) (auto simp: str_split_def)

lemma rev_dropWhile_rev:
  "rev (dropWhile P (rev s)) @ rev (takeWhile P (rev s)) = s"
  by (metis rev_append rev_rev_ident takeWhile_dropWhile_id)

text \<open>\<open>strip\<close> before \<open>split\<close> changes nothing: \<open>split\<close> drops the outer whitespace itself.\<close>

lemma str_split_strip: "str_split (str_strip s) = str_split s"
proof -
  let ?t = "dropWhile str_isspace s"
  have sp: "list_all str_isspace (rev (takeWhile str_isspace (rev ?t)))"
    by (simp add: list_all_iff) (meson set_takeWhileD)
  have "split_from [] (rev (dropWhile str_isspace (rev ?t)) @ rev (takeWhile str_isspace (rev ?t)))
          = split_from [] (rev (dropWhile str_isspace (rev ?t)))"
    using sp by (rule split_from_append_spaces)
  then have "str_split (str_strip s) = str_split ?t"
    by (simp add: rev_dropWhile_rev str_split_def str_strip_def)
  then show ?thesis by (simp add: str_split_dropWhile)
qed

lemma split_from_nonempty: "t \<in> set (split_from cur s) \<Longrightarrow> t \<noteq> []"
  by (induction s arbitrary: cur) (auto split: if_splits)

lemma str_split_nonempty: "t \<in> set (str_split s) \<Longrightarrow> t \<noteq> []"
  by (auto simp: str_split_def dest: split_from_nonempty)

text \<open>The loop finds the first specifier: its result is one more than that token's index.\<close>

lemma find_storage_spec_dropWhile:
  "find_storage_spec parts i =
     (if dropWhile (\<lambda>t. \<not> is_specifier t) parts = [] then 0
      else i + length (takeWhile (\<lambda>t. \<not> is_specifier t) parts) + 1)"
  by (induction parts arbitrary: i) (auto simp: is_specifier_def list_ex_iff)

lemma drop_takeWhile_tl:
  "drop (Suc (length (takeWhile P xs))) xs = tl (dropWhile P xs)"
  by (induction xs) auto

lemma str_join_nonempty: "ts \<noteq> [] \<Longrightarrow> hd ts \<noteq> [] \<Longrightarrow> str_join sep ts \<noteq> []"
  by (induction sep ts rule: str_join.induct) auto

lemma drop_last_two:
  "2 \<le> length xs \<Longrightarrow> drop (length xs - 2) xs = [last (butlast xs), last xs]"
proof (induction xs rule: rev_induct)
  case Nil
  then show ?case by simp
next
  case (snoc x xs)
  then have "xs \<noteq> []" by auto
  then have "drop (length xs - 1) xs = [last xs]"
    by (metis append_butlast_last_id append_eq_conv_conj length_butlast)
  then show ?case using \<open>xs \<noteq> []\<close> by (simp add: Suc_diff_Suc)
qed

text \<open>
  Claim C1, as amended. On every product string but those whose first specifier is the
  final one of at least two tokens, \<open>extract_color_from_product\<close> returns what the
  specification's rule gives: the sentinel for an empty input, the placeholder or fewer
  than two tokens; the tokens strictly after the first specifier, joined with single
  spaces and upper-cased; and the last two tokens, joined and upper-cased, when no
  token is a specifier.
\<close>

theorem extract_color_refines_spec:
  assumes "\<not> specifier_is_final product"
  shows "extract_color_from_product product = extractColor_spec product"
proof (cases "product = [] \<or> product = ''nan'' \<or> length (str_split product) < 2")
  case True
  then show ?thesis
    by (auto simp: extract_color_from_product_def extractColor_spec_def str_split_strip)
next
  case False
  define tokens where "tokens = str_split product"
  define rest where "rest = dropWhile (\<lambda>t. \<not> is_specifier t) tokens"
  define k where "k = length (takeWhile (\<lambda>t. \<not> is_specifier t) tokens)"
  from False have len: "2 \<le> length tokens" and ne: "product \<noteq> []" "product \<noteq> ''nan''"
    by (auto simp: tokens_def)
  have klen: "k + length rest = length tokens"
    unfolding k_def rest_def by (metis length_append takeWhile_dropWhile_id)
  show ?thesis
  proof (cases rest)
    case Nil
    then have "find_storage_spec tokens 0 = 0"
      by (simp add: find_storage_spec_dropWhile rest_def)
    then show ?thesis using len ne Nil
      by (simp add: extract_color_from_product_def extractColor_spec_def str_split_strip
          drop_last_two tokens_def[symmetric] rest_def[symmetric])
  next
    case (Cons s after)
    then have idx: "find_storage_spec tokens 0 = k + 1"
      by (simp add: find_storage_spec_dropWhile rest_def k_def)
    have after: "drop (k + 1) tokens = after"
      using Cons by (simp add: drop_takeWhile_tl k_def rest_def)
    have "after \<noteq> []"
    proof
      assume "after = []"
      then have "rest = [s]" using Cons by simp
      moreover have "last tokens = last rest"
        unfolding rest_def
        by (metis Cons append_Nil2 last_appendR list.simps(3) rest_def takeWhile_dropWhile_id)
      ultimately have "specifier_is_final product"
        using len by (simp add: specifier_is_final_def tokens_def[symmetric] rest_def[symmetric])
      with assms show False by simp
    qed
    then have lt: "k + 1 < length tokens" using klen Cons by (cases after) auto
    have "set after \<subseteq> set tokens"
      using after by (metis set_drop_subset)
    then have "hd after \<in> set (str_split product)"
      using \<open>after \<noteq> []\<close> by (auto simp: tokens_def)
    then have "hd after \<noteq> []"
      by (rule str_split_nonempty)
    then have "str_join '' '' after \<noteq> []"
      using \<open>after \<noteq> []\<close> by (rule str_join_nonempty[rotated])
    then show ?thesis using len ne Cons idx lt after
      by (simp add: extract_color_from_product_def extractColor_spec_def str_split_strip
          tokens_def[symmetric] rest_def[symmetric])
  qed
qed

text \<open>The specification's own example, through the theorem.\<close>

theorem extract_color_refines_spec_witness:
  "\<not> specifier_is_final ''SMART 8 64+3 SHINY GOLD'' \<and>
   extract_color_from_product ''SMART 8 64+3 SHINY GOLD'' = ''SHINY GOLD''"
  using extract_color_refines_spec [of "''SMART 8 64+3 SHINY GOLD''"]
  by (simp add: extractColor_spec_def is_specifier_def specifier_is_final_def str_split_def
      str_isspace_def str_isdigit_def str_upper_def upper_char_def)

text \<open>
  Claim C1 as it was stated fails where the specifier ends the string: the rule's
  "every token strictly after it" is the empty string there, and the code returns the
  last two tokens, the specifier among them.
\<close>

theorem extract_color_final_specifier_counterexample:
  "extract_color_from_product ''SMART 64+3'' = ''SMART 64+3'' \<and>
   extractColor_spec ''SMART 64+3'' = [] \<and>
   extract_color_from_product ''SMART 64+3'' \<noteq> extractColor_spec ''SMART 64+3''"
  by (simp add: extract_color_from_product_def extractColor_spec_def is_specifier_def
      str_split_def str_strip_def str_isspace_def str_isdigit_def str_upper_def upper_char_def)

text \<open>
  Claim C2 asks for the sentinel whenever the specifier is the final token. The code
  does not give it: the test \<open>color_start_index < len(parts)\<close> fails there, the branch
  that would turn an empty colour into the sentinel is never entered, and the
  "no storage spec found" fallback answers with the last two tokens, upper-cased.
\<close>

theorem extract_color_final_specifier:
  assumes "specifier_is_final product"
  shows "extract_color_from_product product =
           str_upper (str_join '' '' (drop (length (str_split product) - 2) (str_split product)))
       \<and> extract_color_from_product product \<noteq> ''Unknown Color''"
proof -
  define tokens where "tokens = str_split product"
  define rest where "rest = dropWhile (\<lambda>t. \<not> is_specifier t) tokens"
  define k where "k = length (takeWhile (\<lambda>t. \<not> is_specifier t) tokens)"
  from assms have len: "2 \<le> length tokens" and rest: "rest = [last tokens]"
    by (simp_all add: specifier_is_final_def tokens_def rest_def Let_def)
  have klen: "k + length rest = length tokens"
    unfolding k_def rest_def by (metis length_append takeWhile_dropWhile_id)
  have ne: "product \<noteq> []" "product \<noteq> ''nan''"
    using len by (auto simp: tokens_def str_split_def str_isspace_def)
  have idx: "find_storage_spec tokens 0 = length tokens"
    using rest klen by (simp add: find_storage_spec_dropWhile rest_def[symmetric] k_def[symmetric])
  have res: "extract_color_from_product product =
           str_upper (str_join '' '' (drop (length tokens - 2) tokens))"
    using len ne idx
    by (simp add: extract_color_from_product_def str_split_strip tokens_def[symmetric])
  have spec: "is_specifier (last tokens)"
    using rest by (metis dropWhile_eq_Cons_conv rest_def)
  have "tokens \<noteq> []" using len by auto
  have "str_join '' '' (drop (length tokens - 2) tokens)
          = last (butlast tokens) @ '' '' @ last tokens"
    using len by (simp add: drop_last_two)
  moreover have "CHR ''+'' \<in> set (last tokens)" using spec by (simp add: is_specifier_def)
  moreover have "upper_char (CHR ''+'') = CHR ''+''" by (simp add: upper_char_def)
  ultimately have "CHR ''+'' \<in> set (extract_color_from_product product)"
    unfolding res str_upper_def by (metis UnCI image_eqI set_append set_map)
  moreover have "CHR ''+'' \<notin> set ''Unknown Color''" by simp
  ultimately have "extract_color_from_product product \<noteq> ''Unknown Color''" by metis
  then show ?thesis using res by (simp add: tokens_def)
qed

theorem extract_color_final_specifier_witness:
  "specifier_is_final ''SMART 8 64+3'' \<and>
   extract_color_from_product ''SMART 8 64+3'' = ''8 64+3''"
  using extract_color_final_specifier [of "''SMART 8 64+3''"]
  by (simp add: is_specifier_def specifier_is_final_def str_split_def
      str_isspace_def str_isdigit_def str_upper_def upper_char_def)


section \<open>Properties of the label composer\<close>

subsection \<open>Arithmetic of the font sizes\<close>


subsection \<open>The parts of the composer\<close>

lemma scale_caption_fonts_total:
  "bbox_width (textbbox env full_text fm) \<noteq> 0 \<Longrightarrow>
   \<exists>bf nf. scale_caption_fonts env fm fr un full_text = Inr (bf, nf)"
  by (auto simp: scale_caption_fonts_def Let_def split: option.splits)

lemma stretch_number_font_total:
  "bbox_width (textbbox env number nf) \<noteq> 0 \<Longrightarrow>
   \<exists>sf. stretch_number_font env nf avail number = Inr sf"
  by (auto simp: stretch_number_font_def Let_def split: option.splits)

lemma draw_caption_Inr:
  "draw_caption env fm fr un caption number y = Inr cap \<Longrightarrow>
   \<exists>bf nf sf. scale_caption_fonts env fm fr un (caption @ '' '' @ number) = Inr (bf, nf)
     \<and> stretch_number_font env nf (460 - bbox_width (textbbox env caption bf) - 5) number = Inr sf
     \<and> cap = [DrawText 30 (of_int y) caption bf,
              DrawText (of_int (30 + bbox_width (textbbox env caption bf) + 5)) (of_int y) number sf]"
  by (auto simp: draw_caption_def Let_def algebra_simps split: sum.splits prod.splits)

lemma draw_caption_total:
  assumes "text_has_width env" "number \<noteq> []"
  shows "\<exists>cap. draw_caption env fm fr un caption number y = Inr cap"
proof -
  have "bbox_width (textbbox env (caption @ '' '' @ number) fm) \<noteq> 0"
    using assms by (simp add: text_has_width_def less_imp_neq[THEN not_sym])
  then obtain bf nf where 1: "scale_caption_fonts env fm fr un (caption @ '' '' @ number) = Inr (bf, nf)"
    using scale_caption_fonts_total by blast
  have "bbox_width (textbbox env number nf) \<noteq> 0"
    using assms by (simp add: text_has_width_def less_imp_neq[THEN not_sym])
  then obtain sf where "stretch_number_font env nf
      (460 - (30 + bbox_width (textbbox env caption bf) + 5 - 30)) number = Inr sf"
    using stretch_number_font_total by blast
  with 1 show ?thesis by (simp add: draw_caption_def Let_def)
qed

lemma draw_box_section_Inr:
  "draw_box_section env fl fm fr dn box_id y = Inr box \<Longrightarrow>
   (case box_id of
      None \<Rightarrow> box = []
    | Some b \<Rightarrow>
        if b = [] then box = []
        else \<exists>cap dn_font. draw_caption env fm fr fm ''Box ID'' b (y + 95) = Inr cap
               \<and> box = [Paste (Code128Image b 460 60) 30 (y + 35)] @ cap @
                        [DrawText 30 (of_int (y + 130)) (''D/N: '' @ dn) dn_font])"
  by (auto simp: draw_box_section_def generate_code128_barcode_def Let_def algebra_simps
      split: sum.splits option.splits if_splits)

lemma draw_box_section_total:
  assumes "text_has_width env" "\<forall>b. box_id = Some b \<and> b \<noteq> [] \<longrightarrow> code128_accepts env b"
  shows "\<exists>box. draw_box_section env fl fm fr dn box_id y = Inr box"
proof (cases box_id)
  case None
  then show ?thesis by (simp add: draw_box_section_def)
next
  case (Some b)
  show ?thesis
  proof (cases "b = []")
    case True
    then show ?thesis using Some by (simp add: draw_box_section_def)
  next
    case False
    then obtain cap where "draw_caption env fm fr fm ''Box ID'' b (y + 35 + 60 + 0) = Inr cap"
      using draw_caption_total[OF assms(1)] by blast
    then show ?thesis using Some False assms(2)
      by (simp add: draw_box_section_def generate_code128_barcode_def Let_def)
  qed
qed

lemma draw_circled_a_eq:
  "draw_circled_a env fc 500 =
     [Ellipse 570 250 610 290 2,
      DrawText (590 - of_int (bbox_width (textbbox env ''A'' fc)) / 2)
               (267 - of_int (bbox_height (textbbox env ''A'' fc)) / 2) ''A'' fc]"
  by (simp add: draw_circled_a_def Let_def)

lemma create_barcode_label_Inr:
  assumes "create_barcode_label env imei model color dn box_id = Inr l"
  shows "\<exists>fl fm fc top cap box.
           load_bold_fonts env = (fl, fm, fc)
         \<and> list_all is_text top
         \<and> draw_caption env fm (load_regular_font env) (load_regular_font env) ''IMEI'' imei 138 = Inr cap
         \<and> draw_box_section env fl fm (load_regular_font env) dn box_id 138 = Inr box
         \<and> l = \<lparr>canvas_size = (650, 300), canvas_color = ''white'',
                 ops = top @ [Paste (Code128Image imei 460 60) 30 70] @ cap @ box @
                       [Paste (QRImage imei 150 150) 500 65] @ draw_circled_a env fc 500\<rparr>"
  using assms
  by (auto simp: create_barcode_label_def generate_code128_barcode_def generate_qr_code_def Let_def
      split: sum.splits prod.splits if_splits)

lemma create_barcode_label_total:
  assumes "text_has_width env" "imei \<noteq> []" "code128_accepts env imei" "qr_accepts env imei"
    "\<forall>b. box_id = Some b \<and> b \<noteq> [] \<longrightarrow> code128_accepts env b"
  shows "\<exists>l. create_barcode_label env imei model color dn box_id = Inr l"
proof -
  obtain fl fm fc where f: "load_bold_fonts env = (fl, fm, fc)" by (cases "load_bold_fonts env") auto
  obtain cap where c: "draw_caption env fm (load_regular_font env) (load_regular_font env) ''IMEI'' imei (70 + 60 + 8) = Inr cap"
    using draw_caption_total[OF assms(1,2)] by blast
  obtain box where b: "draw_box_section env fl fm (load_regular_font env) dn box_id (70 + 60 + 8) = Inr box"
    using draw_box_section_total[OF assms(1,5)] by blast
  show ?thesis using f c b assms(3,4)
    by (simp add: create_barcode_label_def generate_code128_barcode_def generate_qr_code_def Let_def)
qed


subsection \<open>The canvas and the captions\<close>

text \<open>Floors of quotients of numerals, for running the definitions on the sample machine.\<close>

lemma floor_rat_numeral [simp]:
  "\<lfloor>(numeral a :: rat) / numeral b\<rfloor> = numeral a div numeral b"
  using floor_divide_of_int_eq[of "numeral a" "numeral b", where ?'a = rat] by simp

lemma text_has_width_sample: "text_has_width sample_env"
  by (auto simp: text_has_width_def sample_env_def bbox_width_def max_def)

lemma filter_texts:
  "list_all is_text xs \<Longrightarrow>
   filter is_qr_paste xs = [] \<and> filter is_barcode_paste xs = [] \<and> filter is_ellipse xs = []"
proof (induction xs)
  case Nil
  then show ?case by simp
next
  case (Cons x xs)
  then show ?case by (cases x) auto
qed

lemma caption_texts:
  "draw_caption env fm fr un caption number y = Inr cap \<Longrightarrow> list_all is_text cap"
  by (auto dest!: draw_caption_Inr)


text \<open>
  Claim C3. For every record whose IMEI is present and not the placeholder, every image
  that \<open>create_barcode_label\<close> returns is a canvas of exactly 650 by 300 pixels with
  a white background; and it does return one whenever the two encoders accept the data
  they are given and no measured text has width \<open>0\<close>.
\<close>

theorem create_barcode_label_canvas:
  assumes "imei \<noteq> []" "imei \<noteq> ''nan''"
  shows "(\<forall>l. create_barcode_label env imei model color dn box_id = Inr l \<longrightarrow>
            canvas_size l = (650, 300) \<and> canvas_color l = ''white'')
       \<and> (text_has_width env \<and> code128_accepts env imei \<and> qr_accepts env imei \<and>
          (\<forall>b. box_id = Some b \<and> b \<noteq> [] \<longrightarrow> code128_accepts env b) \<longrightarrow>
          (\<exists>l. create_barcode_label env imei model color dn box_id = Inr l))"
proof (rule conjI)
  show "\<forall>l. create_barcode_label env imei model color dn box_id = Inr l \<longrightarrow>
            canvas_size l = (650, 300) \<and> canvas_color l = ''white''"
  proof (intro allI impI)
    fix l assume "create_barcode_label env imei model color dn box_id = Inr l"
    from create_barcode_label_Inr[OF this]
    show "canvas_size l = (650, 300) \<and> canvas_color l = ''white''" by auto
  qed
next
  show "text_has_width env \<and> code128_accepts env imei \<and> qr_accepts env imei \<and>
          (\<forall>b. box_id = Some b \<and> b \<noteq> [] \<longrightarrow> code128_accepts env b) \<longrightarrow>
          (\<exists>l. create_barcode_label env imei model color dn box_id = Inr l)"
    using create_barcode_label_total[of env imei box_id model color dn] assms(1) by blast
qed

theorem create_barcode_label_canvas_witness:
  "\<exists>l. create_barcode_label sample_env ''359827134443046'' ''X6525D'' ''TIMBER BLACK'' ''M8N7''
          (Some ''355760833587361'') = Inr l
       \<and> canvas_size l = (650, 300) \<and> canvas_color l = ''white''"
proof -
  have v: "''359827134443046'' \<noteq> []" "''359827134443046'' \<noteq> ''nan''" by simp_all
  have e: "text_has_width sample_env \<and> code128_accepts sample_env ''359827134443046'' \<and>
           qr_accepts sample_env ''359827134443046'' \<and>
           (\<forall>b. Some ''355760833587361'' = Some b \<and> b \<noteq> [] \<longrightarrow> code128_accepts sample_env b)"
    using text_has_width_sample by (simp add: sample_env_def)
  from create_barcode_label_canvas[OF v, of sample_env "''X6525D''" "''TIMBER BLACK''" "''M8N7''"
      "Some ''355760833587361''"] e
  show ?thesis by blast
qed





subsection \<open>What a returned label holds\<close>

lemma label_ops_filters:
  assumes "create_barcode_label env imei model color dn box_id = Inr l"
  shows "filter is_qr_paste (ops l) = [Paste (QRImage imei 150 150) 500 65]"
    and "filter is_ellipse (ops l) = [Ellipse 570 250 610 290 2]"
    and "filter is_barcode_paste (ops l) =
           Paste (Code128Image imei 460 60) 30 70 #
           (case box_id of None \<Rightarrow> []
            | Some b \<Rightarrow> if b = [] then [] else [Paste (Code128Image b 460 60) 30 173])"
    and "canvas_size l = (650, 300)"
    and "\<exists>fc. last (ops l) = DrawText (590 - of_int (bbox_width (textbbox env ''A'' fc)) / 2)
               (267 - of_int (bbox_height (textbbox env ''A'' fc)) / 2) ''A'' fc"
proof -
  from create_barcode_label_Inr[OF assms] obtain fl fm fc top cap box where
    top: "list_all is_text top" and
    cap: "draw_caption env fm (load_regular_font env) (load_regular_font env) ''IMEI'' imei 138 = Inr cap" and
    box: "draw_box_section env fl fm (load_regular_font env) dn box_id 138 = Inr box" and
    l: "l = \<lparr>canvas_size = (650, 300), canvas_color = ''white'',
                 ops = top @ [Paste (Code128Image imei 460 60) 30 70] @ cap @ box @
                       [Paste (QRImage imei 150 150) 500 65] @ draw_circled_a env fc 500\<rparr>"
    by blast
  note ft = filter_texts[OF top] filter_texts[OF caption_texts[OF cap]]
  have bx: "filter is_qr_paste box = [] \<and> filter is_ellipse box = [] \<and>
            filter is_barcode_paste box =
              (case box_id of None \<Rightarrow> []
               | Some b \<Rightarrow> if b = [] then [] else [Paste (Code128Image b 460 60) 30 173])"
  proof (cases box_id)
    case None
    then show ?thesis using draw_box_section_Inr[OF box] by simp
  next
    case (Some b)
    show ?thesis
    proof (cases "b = []")
      case True
      then show ?thesis using Some draw_box_section_Inr[OF box] by simp
    next
      case False
      with Some draw_box_section_Inr[OF box] obtain c dn_font where
        c: "draw_caption env fm (load_regular_font env) fm ''Box ID'' b (138 + 95) = Inr c"
        and b: "box = [Paste (Code128Image b 460 60) 30 (138 + 35)] @ c @
                        [DrawText 30 (of_int (138 + 130)) (''D/N: '' @ dn) dn_font]"
        by auto
      show ?thesis using filter_texts[OF caption_texts[OF c]] Some False
        by (simp add: b)
    qed
  qed
  show "filter is_qr_paste (ops l) = [Paste (QRImage imei 150 150) 500 65]"
    using ft bx by (simp add: l draw_circled_a_eq)
  show "filter is_ellipse (ops l) = [Ellipse 570 250 610 290 2]"
    using ft bx by (simp add: l draw_circled_a_eq)
  show "filter is_barcode_paste (ops l) =
           Paste (Code128Image imei 460 60) 30 70 #
           (case box_id of None \<Rightarrow> []
            | Some b \<Rightarrow> if b = [] then [] else [Paste (Code128Image b 460 60) 30 173])"
    using ft bx by (simp add: l draw_circled_a_eq)
  show "canvas_size l = (650, 300)" by (simp add: l)
  show "\<exists>fc. last (ops l) = DrawText (590 - of_int (bbox_width (textbbox env ''A'' fc)) / 2)
               (267 - of_int (bbox_height (textbbox env ''A'' fc)) / 2) ''A'' fc"
    by (rule exI[of _ fc]) (simp add: l draw_circled_a_eq)
qed

lemma sample_label:
  "\<exists>l. create_barcode_label sample_env ''359827134443046'' ''X6525D'' ''TIMBER BLACK'' ''M8N7''
          (Some ''355760833587361'') = Inr l"
  by (rule create_barcode_label_total[OF text_has_width_sample]) (simp_all add: sample_env_def)

text \<open>
  Claim C8. On every label the composer returns there is exactly one matrix code: it
  encodes the IMEI and nothing else, measures 150 by 150 pixels and lies at
  \<open>x = 500\<close>, so that it ends at the right edge \<open>500 + 150 = 650\<close> of the canvas. Its
  top is at \<open>y = 65\<close>, while the first barcode is pasted at \<open>y = 70\<close>: the two tops
  are five pixels apart, where the claim (and the comment of line 318) has them aligned.
\<close>

theorem qr_region:
  assumes "create_barcode_label env imei model color dn box_id = Inr l"
  shows "filter is_qr_paste (ops l) = [Paste (QRImage imei 150 150) 500 65]
       \<and> 500 + 150 = fst (canvas_size l)
       \<and> hd (filter is_barcode_paste (ops l)) = Paste (Code128Image imei 460 60) 30 70"
  using label_ops_filters(1,3,4)[OF assms] by simp

theorem qr_region_witness:
  "\<exists>l. create_barcode_label sample_env ''359827134443046'' ''X6525D'' ''TIMBER BLACK'' ''M8N7''
          (Some ''355760833587361'') = Inr l
       \<and> filter is_qr_paste (ops l) = [Paste (QRImage ''359827134443046'' 150 150) 500 65]
       \<and> hd (filter is_barcode_paste (ops l)) = Paste (Code128Image ''359827134443046'' 460 60) 30 70"
proof -
  from sample_label obtain l where
    l: "create_barcode_label sample_env ''359827134443046'' ''X6525D'' ''TIMBER BLACK'' ''M8N7''
          (Some ''355760833587361'') = Inr l" by blast
  from qr_region[OF l] l show ?thesis by blast
qed

text \<open>
  Claim C9. On every label the composer returns there is exactly one ellipse, stroked
  2 pixels wide in the box from \<open>(570, 250)\<close> to \<open>(610, 290)\<close>: a circle of diameter
  40 with centre \<open>(590, 270)\<close>, and the last thing drawn is the glyph \<open>A\<close>, centred on
  \<open>x = 590\<close>. The matrix code spans \<open>x = 500\<close> to \<open>650\<close>, so its midpoint is
  \<open>575\<close>: the circle's centre is 15 pixels to the right of it (the \<open>+ 15\<close> of line
  323), where the claim (and the comment of that line) has it on the midpoint.
\<close>

theorem circled_a:
  assumes "create_barcode_label env imei model color dn box_id = Inr l"
  shows "filter is_ellipse (ops l) = [Ellipse 570 250 610 290 2]
       \<and> filter is_qr_paste (ops l) = [Paste (QRImage imei 150 150) 500 65]
       \<and> (\<exists>fc. last (ops l) =
             DrawText (590 - of_int (bbox_width (textbbox env ''A'' fc)) / 2)
                      (267 - of_int (bbox_height (textbbox env ''A'' fc)) / 2) ''A'' fc)"
  using label_ops_filters(1,2,5)[OF assms] by simp

theorem circled_a_witness:
  "\<exists>l. create_barcode_label sample_env ''359827134443046'' ''X6525D'' ''TIMBER BLACK'' ''M8N7''
          (Some ''355760833587361'') = Inr l
       \<and> filter is_ellipse (ops l) = [Ellipse 570 250 610 290 2]"
proof -
  from sample_label obtain l where
    l: "create_barcode_label sample_env ''359827134443046'' ''X6525D'' ''TIMBER BLACK'' ''M8N7''
          (Some ''355760833587361'') = Inr l" by blast
  from circled_a[OF l] l show ?thesis by blast
qed


section \<open>Properties of the batch driver\<close>

text \<open>A row adds to the batch what it leaves behind on its own.\<close>

lemma process_row_acc:
  "process_row env dir i r st =
     \<lparr>generated_files = generated_files st @ generated_files (row_result env dir i r),
      written = written st @ written (row_result env dir i r),
      printed = printed st @ printed (row_result env dir i r)\<rparr>"
  by (simp add: row_result_def process_row_def Let_def split: sum.splits)

lemma generate_rows_eq:
  "generate_rows env dir i rows st =
     \<lparr>generated_files = generated_files st @
        concat (map (\<lambda>(j, r). generated_files (row_result env dir j r)) (List.enumerate i rows)),
      written = written st @
        concat (map (\<lambda>(j, r). written (row_result env dir j r)) (List.enumerate i rows)),
      printed = printed st @
        concat (map (\<lambda>(j, r). printed (row_result env dir j r)) (List.enumerate i rows))\<rparr>"
proof (induction rows arbitrary: i st)
  case Nil
  then show ?case by simp
next
  case (Cons r rows)
  show ?case
    by (simp add: Cons.IH) (simp add: process_row_acc[of env dir i r st])
qed

lemma row_imei_cases:
  "r ''imei'' = Some c \<Longrightarrow> row_imei r = py_str c"
  "r ''imei'' = None \<Longrightarrow> r ''IMEI/SN'' = Some c \<Longrightarrow> row_imei r = py_str c"
  "r ''imei'' = None \<Longrightarrow> r ''IMEI/SN'' = None \<Longrightarrow> r ''IMEI'' = Some c \<Longrightarrow> row_imei r = py_str c"
  "r ''imei'' = None \<Longrightarrow> r ''IMEI/SN'' = None \<Longrightarrow> r ''IMEI'' = None \<Longrightarrow> row_imei r = []"
  by (simp_all add: row_imei_def row_get_def)

lemma row_box_id_cases:
  "r ''box_id'' = Some c \<Longrightarrow> row_box_id r = py_str c"
  "r ''box_id'' = None \<Longrightarrow> r ''Box ID'' = Some c \<Longrightarrow> row_box_id r = py_str c"
  "r ''box_id'' = None \<Longrightarrow> r ''Box ID'' = None \<Longrightarrow> r ''Boxid'' = Some c \<Longrightarrow> row_box_id r = py_str c"
  "r ''box_id'' = None \<Longrightarrow> r ''Box ID'' = None \<Longrightarrow> r ''Boxid'' = None \<Longrightarrow> row_box_id r = []"
  by (simp_all add: row_box_id_def row_get_def)

lemma row_result_skip:
  "row_imei r = [] \<or> row_imei r = ''nan'' \<Longrightarrow>
   row_result env dir i r = \<lparr>generated_files = [], written = [], printed = [Skipping i]\<rparr>"
  by (auto simp: row_result_def process_row_def Let_def)

lemma row_result_error:
  "row_imei r \<noteq> [] \<Longrightarrow> row_imei r \<noteq> ''nan'' \<Longrightarrow>
   create_barcode_label env (row_imei r) (row_model r) (row_color r) (row_dn r)
     (Some (row_box_id r)) = Inl e \<Longrightarrow>
   row_result env dir i r = \<lparr>generated_files = [], written = [], printed = [ErrorGenerating i e]\<rparr>"
  by (simp add: row_result_def process_row_def Let_def)

lemma row_result_written:
  "row_imei r \<noteq> [] \<Longrightarrow> row_imei r \<noteq> ''nan'' \<Longrightarrow>
   create_barcode_label env (row_imei r) (row_model r) (row_color r) (row_dn r)
     (Some (row_box_id r)) = Inr lbl \<Longrightarrow>
   row_result env dir i r =
     (if can_save env (path_join dir (label_filename (row_imei r) i)) then
        \<lparr>generated_files = [path_join dir (label_filename (row_imei r) i)],
         written = [(path_join dir (label_filename (row_imei r) i), lbl)],
         printed = [Generated (label_filename (row_imei r) i)]\<rparr>
      else \<lparr>generated_files = [], written = [], printed = [ErrorGenerating i SaveError]\<rparr>)"
  by (simp add: row_result_def process_row_def Let_def)

lemma written_composed:
  assumes "(path, lbl) \<in> set (written (row_result env dir i r))"
  shows "row_imei r \<noteq> [] \<and> row_imei r \<noteq> ''nan'' \<and>
         create_barcode_label env (row_imei r) (row_model r) (row_color r) (row_dn r)
           (Some (row_box_id r)) = Inr lbl"
  using assms
  by (auto simp: row_result_def process_row_def Let_def split: sum.splits if_splits)

text \<open>
  Claim C7. The batch is the concatenation, row by row and in order, of what each row
  leaves behind on its own, so no row changes what another one produces and the loop
  always runs to its end. A row whose IMEI is missing (no IMEI column gives the empty
  string, an empty cell gives \<open>nan\<close>), empty or the placeholder leaves no file and the
  line \<open>Skipping row i\<close>. Every other row is composed: when the composer returns a label
  and the file can be written, the row leaves exactly its file; when the composer
  raises, the row leaves the line \<open>Error generating label for row i\<close> and the loop
  goes on.
\<close>

theorem batch_isolation:
  "generated_files (generate_from_data env dir df) =
     concat (map (\<lambda>(i, r). generated_files (row_result env dir i r)) (List.enumerate 0 df))
   \<and> written (generate_from_data env dir df) =
     concat (map (\<lambda>(i, r). written (row_result env dir i r)) (List.enumerate 0 df))
   \<and> printed (generate_from_data env dir df) =
     concat (map (\<lambda>(i, r). printed (row_result env dir i r)) (List.enumerate 0 df))
   \<and> (\<forall>i r. row_imei r = [] \<or> row_imei r = ''nan'' \<longrightarrow>
         row_result env dir i r = \<lparr>generated_files = [], written = [], printed = [Skipping i]\<rparr>)
   \<and> (\<forall>i r lbl. row_imei r \<noteq> [] \<and> row_imei r \<noteq> ''nan'' \<and>
         create_barcode_label env (row_imei r) (row_model r) (row_color r) (row_dn r)
           (Some (row_box_id r)) = Inr lbl \<and>
         can_save env (path_join dir (label_filename (row_imei r) i)) \<longrightarrow>
         row_result env dir i r =
           \<lparr>generated_files = [path_join dir (label_filename (row_imei r) i)],
            written = [(path_join dir (label_filename (row_imei r) i), lbl)],
            printed = [Generated (label_filename (row_imei r) i)]\<rparr>)
   \<and> (\<forall>i r e. row_imei r \<noteq> [] \<and> row_imei r \<noteq> ''nan'' \<and>
         create_barcode_label env (row_imei r) (row_model r) (row_color r) (row_dn r)
           (Some (row_box_id r)) = Inl e \<longrightarrow>
         row_result env dir i r =
           \<lparr>generated_files = [], written = [], printed = [ErrorGenerating i e]\<rparr>)
   \<and> (\<forall>r. r ''imei'' = None \<and> r ''IMEI/SN'' = None \<and> r ''IMEI'' = None \<longrightarrow> row_imei r = [])
   \<and> (\<forall>r. r ''imei'' = Some NaN \<longrightarrow> row_imei r = ''nan'')
   \<and> (\<forall>r s. r ''imei'' = Some (Str s) \<longrightarrow> row_imei r = s)"
proof (intro conjI allI impI)
  show "generated_files (generate_from_data env dir df) =
     concat (map (\<lambda>(i, r). generated_files (row_result env dir i r)) (List.enumerate 0 df))"
    by (simp add: generate_from_data_def generate_rows_eq)
  show "written (generate_from_data env dir df) =
     concat (map (\<lambda>(i, r). written (row_result env dir i r)) (List.enumerate 0 df))"
    by (simp add: generate_from_data_def generate_rows_eq)
  show "printed (generate_from_data env dir df) =
     concat (map (\<lambda>(i, r). printed (row_result env dir i r)) (List.enumerate 0 df))"
    by (simp add: generate_from_data_def generate_rows_eq)
qed (auto simp: row_result_skip row_result_error row_result_written row_imei_cases)

lemmas composer_defs =
  create_barcode_label_def load_bold_fonts_def load_regular_font_def
  draw_box_section_def generate_code128_barcode_def generate_qr_code_def draw_circled_a_def
  draw_caption_def stretch_number_font_def scale_caption_fonts_def
  bbox_width_def bbox_height_def py_int_def Let_def str_upper_def upper_char_def

lemmas extractor_defs =
  extract_color_from_product_def str_split_def str_strip_def str_isspace_def str_isdigit_def
  str_upper_def upper_char_def

lemmas row_defs =
  row_imei_def row_box_id_def row_model_def row_color_def row_dn_def row_get_def
  label_filename_def path_join_def digit_char_def


text \<open>
  A batch of four rows on the sample machine: the second has an empty IMEI cell, the
  third no IMEI column; the first and the fourth are produced.
\<close>

theorem batch_isolation_witness:
  "generated_files (generate_from_data sample_env ''generated_barcodes''
      [[''imei'' \<mapsto> Str ''359827134443046'', ''box_id'' \<mapsto> NaN,
        ''product'' \<mapsto> Str ''SMART 8 64+3 SHINY GOLD''],
       [''imei'' \<mapsto> NaN, ''box_id'' \<mapsto> Str ''355760834629202''],
       [''box_id'' \<mapsto> Str ''355760835671043''],
       [''IMEI'' \<mapsto> Str ''359827134450389'']])
   = [''generated_barcodes/barcode_label_359827134443046_1.png'',
      ''generated_barcodes/barcode_label_359827134450389_4.png'']
  \<and> printed (generate_from_data sample_env ''generated_barcodes''
      [[''imei'' \<mapsto> Str ''359827134443046'', ''box_id'' \<mapsto> NaN,
        ''product'' \<mapsto> Str ''SMART 8 64+3 SHINY GOLD''],
       [''imei'' \<mapsto> NaN, ''box_id'' \<mapsto> Str ''355760834629202''],
       [''box_id'' \<mapsto> Str ''355760835671043''],
       [''IMEI'' \<mapsto> Str ''359827134450389'']])
   = [Generated ''barcode_label_359827134443046_1.png'', Skipping 1, Skipping 2,
      Generated ''barcode_label_359827134450389_4.png'']"
proof -
  let ?df = "[[''imei'' \<mapsto> Str ''359827134443046'', ''box_id'' \<mapsto> NaN,
        ''product'' \<mapsto> Str ''SMART 8 64+3 SHINY GOLD''],
       [''imei'' \<mapsto> NaN, ''box_id'' \<mapsto> Str ''355760834629202''],
       [''box_id'' \<mapsto> Str ''355760835671043''],
       [''IMEI'' \<mapsto> Str ''359827134450389'']]"
  note b = batch_isolation[of sample_env "''generated_barcodes''" ?df]
  have "generated_files (generate_from_data sample_env ''generated_barcodes'' ?df) =
     concat (map (\<lambda>(i, r). generated_files (row_result sample_env ''generated_barcodes'' i r))
       (List.enumerate 0 ?df))"
    using b by blast
  also have "\<dots> = [''generated_barcodes/barcode_label_359827134443046_1.png'',
      ''generated_barcodes/barcode_label_359827134450389_4.png'']"
    by (simp add: row_result_def process_row_def row_defs composer_defs extractor_defs
        sample_env_def str_of_nat.simps)
  finally have 1: "generated_files (generate_from_data sample_env ''generated_barcodes'' ?df) =
     [''generated_barcodes/barcode_label_359827134443046_1.png'',
      ''generated_barcodes/barcode_label_359827134450389_4.png'']" .
  have "printed (generate_from_data sample_env ''generated_barcodes'' ?df) =
     concat (map (\<lambda>(i, r). printed (row_result sample_env ''generated_barcodes'' i r))
       (List.enumerate 0 ?df))"
    using b by blast
  also have "\<dots> = [Generated ''barcode_label_359827134443046_1.png'', Skipping 1, Skipping 2,
      Generated ''barcode_label_359827134450389_4.png'']"
    by (simp add: row_result_def process_row_def row_defs composer_defs extractor_defs
        sample_env_def str_of_nat.simps)
  finally show ?thesis using 1 by simp
qed

text \<open>
  Claim C10. The composer enters the second-barcode block for every box id that is not
  the empty string, and the label then holds exactly two linear barcodes, the second
  encoding the box id as given, at \<open>(30, 173)\<close>. The batch driver reads an empty Box ID
  cell as the text \<open>nan\<close> and passes it on, so every label written for such a row
  carries a second barcode encoding \<open>nan\<close>; a row whose IMEI cell is empty is
  skipped instead.
\<close>

theorem box_id_placeholder_barcode:
  "(\<forall>b l. b \<noteq> [] \<and> create_barcode_label env imei model color dn (Some b) = Inr l \<longrightarrow>
       filter is_barcode_paste (ops l) =
         [Paste (Code128Image imei 460 60) 30 70, Paste (Code128Image b 460 60) 30 173])
   \<and> (\<forall>r. r ''box_id'' = Some NaN \<longrightarrow> row_box_id r = ''nan'')
   \<and> (\<forall>r i path lbl. row_box_id r = ''nan'' \<and>
         (path, lbl) \<in> set (written (row_result env dir i r)) \<longrightarrow>
         create_barcode_label env (row_imei r) (row_model r) (row_color r) (row_dn r)
           (Some ''nan'') = Inr lbl \<and>
         filter is_barcode_paste (ops lbl) =
           [Paste (Code128Image (row_imei r) 460 60) 30 70,
            Paste (Code128Image ''nan'' 460 60) 30 173])
   \<and> (\<forall>r i. r ''imei'' = Some NaN \<longrightarrow>
         row_result env dir i r = \<lparr>generated_files = [], written = [], printed = [Skipping i]\<rparr>)"
proof (intro conjI allI impI)
  fix b l
  assume "b \<noteq> [] \<and> create_barcode_label env imei model color dn (Some b) = Inr l"
  then show "filter is_barcode_paste (ops l) =
         [Paste (Code128Image imei 460 60) 30 70, Paste (Code128Image b 460 60) 30 173]"
    using label_ops_filters(3)[of env imei model color dn "Some b" l] by simp
next
  fix r :: row assume "r ''box_id'' = Some NaN"
  then show "row_box_id r = ''nan''" by (simp add: row_box_id_cases)
next
  fix r i path lbl
  assume a: "row_box_id r = ''nan'' \<and> (path, lbl) \<in> set (written (row_result env dir i r))"
  then have c: "create_barcode_label env (row_imei r) (row_model r) (row_color r) (row_dn r)
           (Some ''nan'') = Inr lbl"
    using written_composed[of path lbl env dir i r] by simp
  then show "create_barcode_label env (row_imei r) (row_model r) (row_color r) (row_dn r)
           (Some ''nan'') = Inr lbl" .
  show "filter is_barcode_paste (ops lbl) =
           [Paste (Code128Image (row_imei r) 460 60) 30 70,
            Paste (Code128Image ''nan'' 460 60) 30 173]"
    using label_ops_filters(3)[OF c] by simp
next
  fix r :: row and i assume "r ''imei'' = Some NaN"
  then have "row_imei r = ''nan''" by (simp add: row_imei_cases)
  then show "row_result env dir i r = \<lparr>generated_files = [], written = [], printed = [Skipping i]\<rparr>"
    by (simp add: row_result_skip)
qed

theorem box_id_placeholder_barcode_witness:
  "\<exists>path lbl.
     written (generate_from_data sample_env ''generated_barcodes''
       [[''imei'' \<mapsto> Str ''359827134443046'', ''box_id'' \<mapsto> NaN]]) = [(path, lbl)]
     \<and> filter is_barcode_paste (ops lbl) =
           [Paste (Code128Image ''359827134443046'' 460 60) 30 70,
            Paste (Code128Image ''nan'' 460 60) 30 173]"
proof -
  let ?r = "[''imei'' \<mapsto> Str ''359827134443046'', ''box_id'' \<mapsto> NaN]"
  have im: "row_imei ?r = ''359827134443046''" and bx: "row_box_id ?r = ''nan''"
    by (simp_all add: row_imei_def row_box_id_def row_get_def)
  have acc: "code128_accepts sample_env (row_imei ?r)" "qr_accepts sample_env (row_imei ?r)"
    "\<forall>b. Some (row_box_id ?r) = Some b \<and> b \<noteq> [] \<longrightarrow> code128_accepts sample_env b"
    by (simp_all add: im bx sample_env_def)
  have "row_imei ?r \<noteq> []" by (simp add: im)
  from create_barcode_label_total[OF text_has_width_sample this acc]
  obtain lbl where
    l: "create_barcode_label sample_env (row_imei ?r) (row_model ?r) (row_color ?r) (row_dn ?r)
          (Some (row_box_id ?r)) = Inr lbl"
    by blast
  let ?p = "path_join ''generated_barcodes'' (label_filename (row_imei ?r) 0)"
  have rr: "row_result sample_env ''generated_barcodes'' 0 ?r =
     \<lparr>generated_files = [?p], written = [(?p, lbl)],
      printed = [Generated (label_filename (row_imei ?r) 0)]\<rparr>"
    using row_result_written[OF _ _ l, of "''generated_barcodes''" 0]
    by (simp add: im) (simp add: sample_env_def)
  have w: "written (generate_from_data sample_env ''generated_barcodes'' [?r]) = [(?p, lbl)]"
    by (simp add: generate_from_data_def generate_rows_eq rr)
  have "(?p, lbl) \<in> set (written (row_result sample_env ''generated_barcodes'' 0 ?r))"
    by (simp add: rr)
  with bx box_id_placeholder_barcode[where env = sample_env and dir = "''generated_barcodes''"]
  have "filter is_barcode_paste (ops lbl) =
           [Paste (Code128Image (row_imei ?r) 460 60) 30 70,
            Paste (Code128Image ''nan'' 460 60) 30 173]"
    by blast
  with w show ?thesis by (simp add: im)
qed


section \<open>Properties of the grid paginator\<close>

lemma place_images_eq:
  "place_images env g i ps c =
     c\<lparr>current_page := current_page c @
          map (\<lambda>(j, p). cell_image g j p) (filter (\<lambda>(j, p). readable env p) (List.enumerate i ps)),
        warnings := warnings c @ filter (\<lambda>p. \<not> readable env p) ps\<rparr>"
  by (induction ps arbitrary: i c) (auto simp: drawImage_def)

lemma py_slice_chunk:
  assumes "0 \<le> a" "0 < m"
  shows "py_slice xs a (min (a + m) (int (length xs))) = take (nat m) (drop (nat a) xs)"
proof (cases "a + m \<le> int (length xs)")
  case True
  then show ?thesis using assms by (simp add: py_slice_def Let_def min_def)
next
  case False
  show ?thesis
  proof (cases "a \<le> int (length xs)")
    case True
    have "length (drop (nat a) xs) \<le> nat m" using False True assms by simp
    then show ?thesis using False True assms by (simp add: py_slice_def Let_def min_def)
  next
    case False
    then show ?thesis using assms by (simp add: py_slice_def Let_def min_def)
  qed
qed

lemma save_laid_out: "save c = without_empty_last (laid_out c)"
  by (simp add: save_def laid_out_def without_empty_last_def)

lemma page_loop_eq:
  assumes "\<forall>pn \<in> set pns. 0 < pn" "0 < m"
  shows "laid_out (page_loop env g m fs pns c) =
           laid_out c @ map (\<lambda>pn. page_content env g (take (nat m) (drop (pn * nat m) fs))) pns
       \<and> warnings (page_loop env g m fs pns c) =
           warnings c @ concat (map (\<lambda>pn. filter (\<lambda>p. \<not> readable env p) (take (nat m) (drop (pn * nat m) fs))) pns)"
  using assms
proof (induction pns arbitrary: c)
  case Nil
  then show ?case by simp
next
  case (Cons pn pns)
  have sl: "py_slice fs (int pn * m) (min (int pn * m + m) (int (length fs)))
              = take (nat m) (drop (pn * nat m) fs)"
    using Cons.prems py_slice_chunk[of "int pn * m" m fs] by (simp add: nat_mult_distrib)
  show ?case using Cons
    by (simp add: sl Let_def place_images_eq laid_out_def showPage_def page_content_def)
qed

lemma page_loop_from_zero:
  assumes "0 < m" "0 < t"
  shows "laid_out (page_loop env g m fs [0..<t] \<lparr>finished_pages = [], current_page = [], warnings = []\<rparr>) =
           map (\<lambda>pn. page_content env g (take (nat m) (drop (pn * nat m) fs))) [0..<t]
       \<and> warnings (page_loop env g m fs [0..<t] \<lparr>finished_pages = [], current_page = [], warnings = []\<rparr>) =
           concat (map (\<lambda>pn. filter (\<lambda>p. \<not> readable env p) (take (nat m) (drop (pn * nat m) fs))) [0..<t])"
proof -
  define c1 where "c1 = place_images env g 0 (take (nat m) fs)
                          \<lparr>finished_pages = [], current_page = [], warnings = []\<rparr>"
  have up: "[0..<t] = 0 # [1..<t]" using assms by (simp add: upt_rec)
  have pos: "\<forall>pn \<in> set [1..<t]. 0 < pn" by auto
  have sl: "py_slice fs 0 (min m (int (length fs))) = take (nat m) fs"
    using py_slice_chunk[of 0 m fs] assms by simp
  have step: "page_loop env g m fs [0..<t] \<lparr>finished_pages = [], current_page = [], warnings = []\<rparr>
                = page_loop env g m fs [1..<t] c1"
    unfolding up by (simp add: sl Let_def c1_def)
  have c1: "laid_out c1 = [page_content env g (take (nat m) fs)]"
           "warnings c1 = filter (\<lambda>p. \<not> readable env p) (take (nat m) fs)"
    by (simp_all add: c1_def place_images_eq laid_out_def page_content_def)
  note pl = page_loop_eq[OF pos assms(1), of env g fs c1]
  show ?thesis
    unfolding step using pl by (simp add: c1 up)
qed

lemma concat_chunks:
  "concat (map (\<lambda>pn. take m (drop (pn * m) xs)) [0..<t]) = take (t * m) xs"
proof (induction t)
  case 0
  then show ?case by simp
next
  case (Suc t)
  then have "concat (map (\<lambda>pn. take m (drop (pn * m) xs)) [0..<Suc t])
               = take (t * m) xs @ take m (drop (t * m) xs)" by simp
  also have "\<dots> = take (t * m + m) xs" by (simp add: take_add)
  finally show ?case by (simp add: add.commute)
qed

lemma pages_count:
  assumes "0 < m"
  shows "(int n + m - 1) div m = \<lceil>(of_nat n :: rat) / of_int m\<rceil>"
proof -
  define a where "a = int n"
  define k where "k = (a + m - 1) div m"
  have eq: "k * m + (a + m - 1) mod m = a + m - 1"
    unfolding k_def by simp
  have "0 \<le> (a + m - 1) mod m" "(a + m - 1) mod m < m"
    using assms by simp_all
  with eq have lo: "(k - 1) * m < a" and hi: "a \<le> k * m"
    by (simp_all add: algebra_simps)
  have m: "(0::rat) < of_int m" using assms by simp
  have "(of_int ((k - 1) * m) :: rat) < of_int a" using lo by (simp only: of_int_less_iff)
  then have 1: "(of_int k :: rat) - 1 < of_int a / of_int m"
    using m by (simp add: pos_less_divide_eq)
  have "(of_int a :: rat) \<le> of_int (k * m)" using hi by (simp only: of_int_le_iff)
  then have 2: "(of_int a :: rat) / of_int m \<le> of_int k"
    using m by (simp add: pos_divide_le_eq)
  have "\<lceil>(of_int a :: rat) / of_int m\<rceil> = k"
    using 1 2 by (rule ceiling_unique)
  then show ?thesis by (simp add: k_def a_def)
qed


lemma chunks_cover:
  assumes "0 < (m::nat)"
  shows "n \<le> (n + m - 1) div m * m"
proof -
  have "(n + m - 1) div m * m + (n + m - 1) mod m = n + m - 1" by simp
  moreover have "(n + m - 1) mod m < m" using assms by simp
  ultimately show ?thesis by linarith
qed

lemma last_chunk:
  assumes "0 < (m::nat)" "0 < n"
  shows "((n + m - 1) div m - 1) * m < n"
proof -
  have "(n + m - 1) div m * m \<le> n + m - 1" by simp
  then have "(n + m - 1) div m * m - m \<le> n - 1" using assms by linarith
  then show ?thesis using assms by (simp add: diff_mult_distrib)
qed

lemma filter_chunks:
  "concat (map (\<lambda>pn. filter P (take m (drop (pn * m) xs))) [0..<t]) = filter P (take (t * m) xs)"
proof -
  have "concat (map (\<lambda>pn. filter P (take m (drop (pn * m) xs))) [0..<t])
          = filter P (concat (map (\<lambda>pn. take m (drop (pn * m) xs)) [0..<t]))"
    by (simp add: filter_concat comp_def)
  then show ?thesis by (simp add: concat_chunks)
qed

lemma create_pdf_structure:
  assumes "0 < cols" "0 < rows" "glob_result \<noteq> []"
  defines "fs \<equiv> sort glob_result"
      and "m \<equiv> nat (cols * rows)"
  defines "t \<equiv> (length fs + m - 1) div m"
  shows "create_pdf_from_barcodes env pagesize glob_result cols rows =
           Inr (Some \<lparr>doc_pages = without_empty_last
                         (map (\<lambda>pn. page_content env (grid_layout pagesize cols rows)
                                     (take m (drop (pn * m) fs))) [0..<t]),
                       doc_warnings = filter (\<lambda>p. \<not> readable env p) fs,
                       total_pages = int t\<rparr>)"
    and "0 < m" and "0 < t" and "length fs \<le> t * m" and "fs \<noteq> []"
    and "int t = \<lceil>(of_nat (length fs) :: rat) / of_int (cols * rows)\<rceil>"
proof -
  have ipp: "0 < cols * rows" using assms(1,2) by simp
  then show m: "0 < m" by (simp add: m_def)
  have im: "int m = cols * rows" using ipp by (simp add: m_def)
  have "length fs = length glob_result" by (simp add: fs_def)
  then show ne: "fs \<noteq> []" using assms(3) by auto
  then have n: "0 < length fs" by simp
  have "m \<le> length fs + m - 1" using n by linarith
  then have "m div m \<le> (length fs + m - 1) div m" by (rule div_le_mono)
  then show t: "0 < t" using m by (simp add: t_def)
  show cover: "length fs \<le> t * m" unfolding t_def using m by (rule chunks_cover)
  have "int (length fs) + int m - 1 = int (length fs + m - 1)"
    using n by linarith
  then have "int (length fs) + cols * rows - 1 = int (length fs + m - 1)"
    by (simp only: im)
  then have np: "(int (length fs) + cols * rows - 1) div (cols * rows) = int t"
    by (simp add: t_def zdiv_int im)
  show "int t = \<lceil>(of_nat (length fs) :: rat) / of_int (cols * rows)\<rceil>"
    using pages_count[OF ipp, of "length fs"] np by simp
  note pl = page_loop_from_zero[OF ipp t, of env "grid_layout pagesize cols rows" fs]
  have w: "concat (map (\<lambda>pn. filter (\<lambda>p. \<not> readable env p) (take m (drop (pn * m) fs))) [0..<t])
             = filter (\<lambda>p. \<not> readable env p) fs"
    using cover by (simp add: filter_chunks)
  show "create_pdf_from_barcodes env pagesize glob_result cols rows =
           Inr (Some \<lparr>doc_pages = without_empty_last
                         (map (\<lambda>pn. page_content env (grid_layout pagesize cols rows)
                                     (take m (drop (pn * m) fs))) [0..<t]),
                       doc_warnings = filter (\<lambda>p. \<not> readable env p) fs,
                       total_pages = int t\<rparr>)"
    using ne assms(1,2) pl w
    by (simp add: create_pdf_from_barcodes_def Let_def fs_def[symmetric] np m_def[symmetric]
        save_laid_out)
qed


lemma grid_col: "0 < (c::int) \<Longrightarrow> (a mod (c * r)) mod c = a mod c"
  by (simp add: mod_mod_cancel)

lemma grid_row: "0 < (c::int) \<Longrightarrow> 0 < r \<Longrightarrow> (a mod (c * r)) div c = (a div c) mod r"
  using zmod_zmult2_eq by simp

lemma page_content_all:
  assumes "\<forall>p \<in> set xs. readable env p"
  shows "page_content env g xs = map (\<lambda>(i, p). cell_image g i p) (List.enumerate 0 xs)"
proof -
  have "\<forall>x \<in> set (List.enumerate 0 xs). (\<lambda>(i, p). readable env p) x"
    using assms by (auto simp: in_set_enumerate_eq)
  then have "filter (\<lambda>(i, p). readable env p) (List.enumerate 0 xs) = List.enumerate 0 xs"
    by (simp add: filter_id_conv)
  then show ?thesis by (simp add: page_content_def)
qed

lemma readable_snd: "(\<lambda>(i::nat, p). readable env p) = (\<lambda>x. readable env (snd x))"
  by (simp add: fun_eq_iff)

lemma img_path_cell: "(\<lambda>x. img_path (case x of (i, p) \<Rightarrow> cell_image g i p)) = snd"
  by (simp add: fun_eq_iff cell_image_def Let_def case_prod_beta)

lemma page_content_paths:
  "map img_path (page_content env g xs) = filter (readable env) xs"
proof -
  have "map img_path (page_content env g xs)
          = map snd (filter (readable env \<circ> snd) (List.enumerate 0 xs))"
    by (simp add: page_content_def readable_snd comp_def img_path_cell)
  also have "\<dots> = filter (readable env) (map snd (List.enumerate 0 xs))"
    by (simp only: filter_map)
  finally show ?thesis by (simp only: map_snd_enumerate)
qed


text \<open>
  Claim C5. For a grid of \<open>cols\<close> columns and \<open>rows\<close> rows, both positive, and a
  directory of \<open>n\<close> images that can all be read, the paginator returns a document
  with exactly \<open>ceil(n / (cols * rows))\<close> pages, which is also the number it reports.
  Read page after page, the images are the sorted list of files, in order. Every page
  but the last holds \<open>cols * rows\<close> images and the last one the rest, so a new page
  begins after every \<open>cols * rows\<close> placements. The image with index \<open>k\<close> of the
  list stands on page \<open>k div (cols * rows)\<close>, in column \<open>k mod cols\<close> (counted
  from the left edge) and row \<open>(k div cols) mod rows\<close> (counted from the top edge).
\<close>

theorem paginate_row_major:
  fixes env :: environment and pagesize :: "rat \<times> rat"
  assumes "0 < cols" "0 < rows" "glob_result \<noteq> []" "\<forall>p \<in> set glob_result. readable env p"
  defines "files \<equiv> sort glob_result"
      and "m \<equiv> nat (cols * rows)"
      and "g \<equiv> grid_layout pagesize cols rows"
  shows "\<exists>doc. create_pdf_from_barcodes env pagesize glob_result cols rows = Inr (Some doc)
     \<and> int (length (doc_pages doc)) = \<lceil>(of_nat (length files) :: rat) / of_int (cols * rows)\<rceil>
     \<and> total_pages doc = int (length (doc_pages doc))
     \<and> concat (map (map img_path) (doc_pages doc)) = files
     \<and> (\<forall>p < length (doc_pages doc).
           length (doc_pages doc ! p) = min m (length files - p * m))
     \<and> (\<forall>k < length files.
           doc_pages doc ! (k div m) ! (k mod m) =
             \<lparr>img_path = files ! k,
              img_x = 20 + of_int (int k mod cols) * cell_width g + 5,
              img_y = page_height g - 20 - of_int ((int k div cols) mod rows + 1) * cell_height g + 5,
              img_width = image_width g, img_height = image_height g\<rparr>)"
proof -
  define t where "t = (length files + m - 1) div m"
  define pages where
    "pages = map (\<lambda>pn. page_content env g (take m (drop (pn * m) files))) [0..<t]"
  note st = create_pdf_structure[OF assms(1-3)]
  have m: "0 < m" using st(2) by (simp add: m_def)
  have t: "0 < t" using st(3) by (simp add: t_def m_def files_def)
  have cover: "length files \<le> t * m" using st(4) by (simp add: t_def m_def files_def)
  have st1: "create_pdf_from_barcodes env pagesize glob_result cols rows =
               Inr (Some \<lparr>doc_pages = without_empty_last
                             (map (\<lambda>pn. page_content env g (take m (drop (pn * m) files))) [0..<t]),
                           doc_warnings = filter (\<lambda>p. \<not> readable env p) files,
                           total_pages = int t\<rparr>)"
    using st(1)[of env pagesize] by (simp add: t_def m_def files_def g_def)
  have st6: "int t = \<lceil>(of_nat (length files) :: rat) / of_int (cols * rows)\<rceil>"
    using st(6) by (simp add: t_def m_def files_def)
  have im: "int m = cols * rows" using assms(1,2) by (simp add: m_def)
  have gc: "grid_cols g = cols" by (simp add: g_def grid_layout_def Let_def)
  have rd: "\<forall>p \<in> set files. readable env p" using assms(4) by (simp add: files_def)
  have chunk_rd: "\<forall>p \<in> set (take m (drop (pn * m) files)). readable env p" for pn
    using rd by (meson in_set_dropD in_set_takeD)
  have page: "pages ! pn = map (\<lambda>(i, p). cell_image g i p)
                             (List.enumerate 0 (take m (drop (pn * m) files)))"
    if "pn < t" for pn
    using that by (simp add: pages_def page_content_all[OF chunk_rd])
  have len: "length pages = t" by (simp add: pages_def)
  have n: "0 < length files" using assms(3) by (simp add: files_def)
  have "(t - 1) * m < length files" unfolding t_def using m n by (rule last_chunk)
  then have "length (pages ! (t - 1)) \<noteq> 0" using t m by (simp add: page)
  moreover have "pages \<noteq> []" using len t by auto
  then have "last pages = pages ! (t - 1)" using len by (simp add: last_conv_nth)
  ultimately have full: "without_empty_last pages = pages"
    by (auto simp: without_empty_last_def)
  have doc: "create_pdf_from_barcodes env pagesize glob_result cols rows =
               Inr (Some \<lparr>doc_pages = pages,
                           doc_warnings = filter (\<lambda>p. \<not> readable env p) files,
                           total_pages = int t\<rparr>)"
    using st1 full by (simp add: pages_def)
  have c1: "int (length pages) = \<lceil>(of_nat (length files) :: rat) / of_int (cols * rows)\<rceil>"
    using st6 len by simp
  have "map (map img_path) pages = map (\<lambda>pn. take m (drop (pn * m) files)) [0..<t]"
    using chunk_rd by (simp add: pages_def page_content_paths filter_id_conv)
  then have "concat (map (map img_path) pages) = take (t * m) files"
    by (simp add: concat_chunks)
  then have c2: "concat (map (map img_path) pages) = files" using cover by simp
  have c3: "length (pages ! p) = min m (length files - p * m)" if "p < length pages" for p
    using that len by (simp add: page)
  have c4: "pages ! (k div m) ! (k mod m) =
             \<lparr>img_path = files ! k,
              img_x = 20 + of_int (int k mod cols) * cell_width g + 5,
              img_y = page_height g - 20 - of_int ((int k div cols) mod rows + 1) * cell_height g + 5,
              img_width = image_width g, img_height = image_height g\<rparr>"
    if k: "k < length files" for k
  proof -
    have "k < t * m" using k cover by simp
    then have pt: "k div m < t" using m by (simp add: less_mult_imp_div_less)
    have km: "k div m * m + k mod m = k" by simp
    have l2: "k mod m < length (take m (drop (k div m * m) files))"
      using m k km by (simp add: less_diff_conv)
    have el: "take m (drop (k div m * m) files) ! (k mod m) = files ! k"
      using m l2 by (simp add: km)
    have "pages ! (k div m) ! (k mod m) = cell_image g (k mod m) (files ! k)"
      using l2 by (simp add: page[OF pt] nth_enumerate_eq el del: length_take length_drop)
    moreover have "int (k mod m) mod cols = int k mod cols"
      using grid_col[OF assms(1), of "int k" rows] by (simp add: zmod_int im)
    moreover have "int (k mod m) div cols = (int k div cols) mod rows"
      using grid_row[OF assms(1,2), of "int k"] by (simp add: zmod_int im)
    ultimately show ?thesis by (simp add: cell_image_def Let_def gc)
  qed
  show ?thesis
    by (rule exI[of _ "\<lparr>doc_pages = pages,
                           doc_warnings = filter (\<lambda>p. \<not> readable env p) files,
                           total_pages = int t\<rparr>"])
       (use doc c1 c2 c3 c4 len in simp)
qed












lemma ceiling_rat_numeral [simp]:
  "\<lceil>(numeral a :: rat) / numeral b\<rceil> = - (- numeral a div numeral b)"
  using ceiling_divide_eq_div[of "numeral a" "numeral b", where ?'a = rat] by simp



text \<open>
  The specification's example: sixty-one images on the grid of 5 columns and 12 rows
  make two pages, of 60 images and of 1.
\<close>

theorem paginate_row_major_witness:
  "\<exists>doc. create_pdf_from_barcodes sample_env (595, 842) sixty_one_files 5 12 = Inr (Some doc)
     \<and> length sixty_one_files = 61
     \<and> map length (doc_pages doc) = [60, 1]"
proof -
  have n: "length sixty_one_files = 61" by (simp add: sixty_one_files_def)
  have h: "(0::int) < 5" "(0::int) < 12" "sixty_one_files \<noteq> []"
    using n by auto
  have r: "\<forall>p \<in> set sixty_one_files. readable sample_env p"
    by (auto simp: sixty_one_files_def sample_env_def)
  from paginate_row_major[OF h r, of "(595, 842)"]
  obtain doc where
    d: "create_pdf_from_barcodes sample_env (595, 842) sixty_one_files 5 12 = Inr (Some doc)" and
    c: "int (length (doc_pages doc)) =
          \<lceil>(of_nat (length (sort sixty_one_files)) :: rat) / of_int (5 * 12)\<rceil>" and
    l: "\<forall>p < length (doc_pages doc).
           length (doc_pages doc ! p) = min (nat (5 * 12)) (length (sort sixty_one_files) - p * nat (5 * 12))"
    by (elim exE conjE) (rule that)
  have two: "length (doc_pages doc) = 2" using c by (simp add: n)
  then have "length (doc_pages doc ! 0) = 60" "length (doc_pages doc ! 1) = 1"
    using l by (simp_all add: n)
  moreover from two obtain a b where "doc_pages doc = [a, b]"
    by (auto simp: length_Suc_conv numeral_2_eq_2)
  ultimately have "map length (doc_pages doc) = [60, 1]" by simp
  with d n show ?thesis by (intro exI[of _ doc]) simp
qed


end
